theory Spec2Isabelle
  imports Main "HOL-Library.Word" "HOL-Library.Sublist"
begin

unbundle bit_operations_syntax

section \<open>Values shared by the whole program\<close>

text \<open>
  Go strings are byte sequences; they are modelled as \<open>string\<close> (a list of 8-bit
  characters). File contents are \<open>[]byte\<close>, and version codes are \<open>int64\<close>.
\<close>

type_synonym byte = "8 word"
type_synonym uint32 = "32 word"
type_synonym int64 = "64 word"

text \<open>
  A Go \<open>error\<close> value. \<open>errors.New\<close> and \<open>fmt.Errorf\<close> without \<open>%w\<close> build an
  error that is only its message; \<open>fmt.Errorf\<close> with \<open>%w\<close> builds one that holds the
  formatted message and the wrapped cause. Errors of the file system and of the remote
  service are values of the same type.
\<close>

datatype error = New string | Wrap string error

fun errorString :: "error \<Rightarrow> string" where
  "errorString (New msg) = msg"
| "errorString (Wrap msg cause) = msg"

definition bytes_of :: "string \<Rightarrow> byte list" where
  "bytes_of s = map of_char s"

section \<open>The standard library's SHA-256 and hex encoding\<close>

text \<open>
  \<open>crypto/sha256\<close> and \<open>encoding/hex\<close> belong to the Go standard library. SHA-256 is
  written here after FIPS 180-4: padding to a multiple of 64 bytes, big-endian words, the
  64-word message schedule and the 64-round compression function, on 32-bit words whose
  addition wraps around.
\<close>

definition rotr :: "nat \<Rightarrow> uint32 \<Rightarrow> uint32" where
  "rotr n x = (drop_bit n x) OR (push_bit (32 - n) (take_bit n x))"

definition Ch :: "uint32 \<Rightarrow> uint32 \<Rightarrow> uint32 \<Rightarrow> uint32" where
  "Ch x y z = (x AND y) XOR (NOT x AND z)"

definition Maj :: "uint32 \<Rightarrow> uint32 \<Rightarrow> uint32 \<Rightarrow> uint32" where
  "Maj x y z = (x AND y) XOR (x AND z) XOR (y AND z)"

definition bsig0 :: "uint32 \<Rightarrow> uint32" where
  "bsig0 x = rotr 2 x XOR rotr 13 x XOR rotr 22 x"

definition bsig1 :: "uint32 \<Rightarrow> uint32" where
  "bsig1 x = rotr 6 x XOR rotr 11 x XOR rotr 25 x"

definition ssig0 :: "uint32 \<Rightarrow> uint32" where
  "ssig0 x = rotr 7 x XOR rotr 18 x XOR drop_bit 3 x"

definition ssig1 :: "uint32 \<Rightarrow> uint32" where
  "ssig1 x = rotr 17 x XOR rotr 19 x XOR drop_bit 10 x"

definition sha256_K :: "uint32 list" where
  "sha256_K = [
    0x428A2F98, 0x71374491, 0xB5C0FBCF, 0xE9B5DBA5, 0x3956C25B, 0x59F111F1, 0x923F82A4, 0xAB1C5ED5,
    0xD807AA98, 0x12835B01, 0x243185BE, 0x550C7DC3, 0x72BE5D74, 0x80DEB1FE, 0x9BDC06A7, 0xC19BF174,
    0xE49B69C1, 0xEFBE4786, 0x0FC19DC6, 0x240CA1CC, 0x2DE92C6F, 0x4A7484AA, 0x5CB0A9DC, 0x76F988DA,
    0x983E5152, 0xA831C66D, 0xB00327C8, 0xBF597FC7, 0xC6E00BF3, 0xD5A79147, 0x06CA6351, 0x14292967,
    0x27B70A85, 0x2E1B2138, 0x4D2C6DFC, 0x53380D13, 0x650A7354, 0x766A0ABB, 0x81C2C92E, 0x92722C85,
    0xA2BFE8A1, 0xA81A664B, 0xC24B8B70, 0xC76C51A3, 0xD192E819, 0xD6990624, 0xF40E3585, 0x106AA070,
    0x19A4C116, 0x1E376C08, 0x2748774C, 0x34B0BCB5, 0x391C0CB3, 0x4ED8AA4A, 0x5B9CCA4F, 0x682E6FF3,
    0x748F82EE, 0x78A5636F, 0x84C87814, 0x8CC70208, 0x90BEFFFA, 0xA4506CEB, 0xBEF9A3F7, 0xC67178F2]"

definition sha256_init :: "uint32 list" where
  "sha256_init = [0x6A09E667, 0xBB67AE85, 0x3C6EF372, 0xA54FF53A,
                  0x510E527F, 0x9B05688C, 0x1F83D9AB, 0x5BE0CD19]"

text \<open>Big-endian packing of bytes into 32-bit words, four at a time.\<close>

fun be_words :: "byte list \<Rightarrow> uint32 list" where
  "be_words (a # b # c # d # bs) =
     (push_bit 24 (ucast a) OR push_bit 16 (ucast b) OR push_bit 8 (ucast c) OR ucast d)
       # be_words bs"
| "be_words _ = []"

definition be_bytes32 :: "uint32 \<Rightarrow> byte list" where
  "be_bytes32 w = [ucast (drop_bit 24 w), ucast (drop_bit 16 w), ucast (drop_bit 8 w), ucast w]"

definition be_bytes64 :: "nat \<Rightarrow> byte list" where
  "be_bytes64 n = map (\<lambda>i. of_nat (n div 2 ^ (8 * i))) [7, 6, 5, 4, 3, 2, 1, 0]"

text \<open>The message, the byte 0x80, zero bytes up to 56 modulo 64, and the length in bits
  as a 64-bit big-endian number.\<close>

definition sha256_pad :: "byte list \<Rightarrow> byte list" where
  "sha256_pad m = m @ [0x80] @ replicate ((119 - length m mod 64) mod 64) 0
                    @ be_bytes64 ((8 * length m) mod 2 ^ 64)"

text \<open>The message schedule: the sixteen words of the block, extended to sixty-four. The
  list is kept newest first while it is built.\<close>

fun sched_extend :: "nat \<Rightarrow> uint32 list \<Rightarrow> uint32 list" where
  "sched_extend 0 ws = ws"
| "sched_extend (Suc n) ws =
     sched_extend n ((ssig1 (ws ! 1) + ws ! 6 + ssig0 (ws ! 14) + ws ! 15) # ws)"

definition schedule :: "uint32 list \<Rightarrow> uint32 list" where
  "schedule blk = rev (sched_extend 48 (rev blk))"

type_synonym sha_state =
  "uint32 \<times> uint32 \<times> uint32 \<times> uint32 \<times> uint32 \<times> uint32 \<times> uint32 \<times> uint32"

fun round256 :: "sha_state \<Rightarrow> uint32 \<times> uint32 \<Rightarrow> sha_state" where
  "round256 (a, b, c, d, e, f, g, h) (k, w) =
     (let t1 = h + bsig1 e + Ch e f g + k + w;
          t2 = bsig0 a + Maj a b c
      in (t1 + t2, a, b, c, d + t1, e, f, g))"

fun compress :: "uint32 list \<Rightarrow> uint32 list \<Rightarrow> uint32 list" where
  "compress [h0, h1, h2, h3, h4, h5, h6, h7] blk =
     (case foldl round256 (h0, h1, h2, h3, h4, h5, h6, h7) (zip sha256_K (schedule blk)) of
        (a, b, c, d, e, f, g, h) \<Rightarrow>
          [h0 + a, h1 + b, h2 + c, h3 + d, h4 + e, h5 + f, h6 + g, h7 + h])"
| "compress hs blk = hs"

fun blocks :: "nat \<Rightarrow> uint32 list \<Rightarrow> uint32 list list" where
  "blocks 0 ws = []"
| "blocks (Suc n) ws = take 16 ws # blocks n (drop 16 ws)"

definition sha256 :: "byte list \<Rightarrow> byte list" where
  "sha256 m =
     (let ws = be_words (sha256_pad m)
      in concat (map be_bytes32 (foldl compress sha256_init (blocks (length ws div 16) ws))))"

text \<open>\<open>hex.EncodeToString\<close>: two characters of the table per byte, high nibble first.\<close>

definition hextable :: string where
  "hextable = ''0123456789abcdef''"

definition EncodeToString :: "byte list \<Rightarrow> string" where
  "EncodeToString src =
     concat (map (\<lambda>v. [hextable ! unat (drop_bit 4 v), hextable ! unat (v AND 0x0f)]) src)"

section \<open>Readers\<close>

text \<open>
  An open file (\<open>afero.File\<close>, used as an \<open>io.ReadSeeker\<close>): its bytes, the read offset,
  and the error, if any, with which reading or seeking on this handle fails.
\<close>

record File =
  f_data :: "byte list"
  f_pos :: nat
  f_readErr :: "error option"
  f_seekErr :: "error option"

text \<open>\<open>strings.NewReader\<close>: a reader over the bytes of a string, at offset 0, that never
  fails.\<close>

definition NewReader :: "string \<Rightarrow> File" where
  "NewReader s = \<lparr>f_data = bytes_of s, f_pos = 0, f_readErr = None, f_seekErr = None\<rparr>"

text \<open>The bytes a reader delivers from its current offset to the end of file.\<close>

definition unread :: "File \<Rightarrow> byte list" where
  "unread r = drop (f_pos r) (f_data r)"

text \<open>\<open>io.Copy(h, r)\<close> into a hash: every byte from the current offset to the end of file
  is read and written to the hash (a hash never fails on write).\<close>

definition io_Copy :: "File \<Rightarrow> error + byte list \<times> File" where
  "io_Copy r =
     (case f_readErr r of
        Some err \<Rightarrow> Inl err
      | None \<Rightarrow> Inr (unread r, r\<lparr>f_pos := max (f_pos r) (length (f_data r))\<rparr>))"

text \<open>\<open>r.Seek(0, io.SeekStart)\<close>.\<close>

definition SeekStart :: "File \<Rightarrow> error + File" where
  "SeekStart r =
     (case f_seekErr r of
        Some err \<Rightarrow> Inl err
      | None \<Rightarrow> Inr (r\<lparr>f_pos := 0\<rparr>))"

section \<open>util.go\<close>

text \<open>
  \<^verbatim>\<open>
  func fileSha256(r io.ReadSeeker) (string, error) {
      h := sha256.New()
      if _, err := io.Copy(h, r); err != nil { return "", err }
      if _, err := r.Seek(0, io.SeekStart); err != nil { return "", err }
      return hex.EncodeToString(h.Sum(nil)), nil
  }
  \<close>
  The reader is mutated; the model returns it with the hash.
\<close>

definition fileSha256 :: "File \<Rightarrow> error + string \<times> File" where
  "fileSha256 r =
     (case io_Copy r of
        Inl err \<Rightarrow> Inl err
      | Inr (content, r1) \<Rightarrow>
          (case SeekStart r1 of
             Inl err \<Rightarrow> Inl err
           | Inr r2 \<Rightarrow> Inr (EncodeToString (sha256 content), r2)))"

section \<open>The standard library's strings.ToLower and strings.TrimSpace\<close>

text \<open>
  Both functions have a fast path for ASCII bytes, written out here as in the Go sources,
  and fall back to the Unicode tables as soon as a byte is at least \<open>utf8.RuneSelf\<close>
  (0x80). The Unicode fallbacks are not part of this repository; they are the fields of a
  parameter, so that every result below holds whatever the tables say.
\<close>

record Unicode =
  MapToLower :: "string \<Rightarrow> string"            \<comment> \<open>\<open>strings.Map(unicode.ToLower, s)\<close>\<close>
  TrimFuncIsSpace :: "string \<Rightarrow> string"       \<comment> \<open>\<open>strings.TrimFunc(s, unicode.IsSpace)\<close>\<close>
  TrimRightFuncIsSpace :: "string \<Rightarrow> string"  \<comment> \<open>\<open>strings.TrimRightFunc(s, unicode.IsSpace)\<close>\<close>

definition isASCII :: "char \<Rightarrow> bool" where
  "isASCII c = ((of_char c :: nat) < 128)"

definition isUpperASCII :: "char \<Rightarrow> bool" where
  "isUpperASCII c = (65 \<le> (of_char c :: nat) \<and> (of_char c :: nat) \<le> 90)"

definition lowerASCII :: "char \<Rightarrow> char" where
  "lowerASCII c = (if isUpperASCII c then char_of ((of_char c :: nat) + 32) else c)"

text \<open>The table \<open>asciiSpace\<close>: tab, line feed, vertical tab, form feed, carriage return
  and space.\<close>

definition asciiSpace :: "char \<Rightarrow> bool" where
  "asciiSpace c = ((of_char c :: nat) \<in> {9, 10, 11, 12, 13, 32})"

definition ToLower :: "Unicode \<Rightarrow> string \<Rightarrow> string" where
  "ToLower u s =
     (if list_all isASCII s
      then (if \<not> list_ex isUpperASCII s then s else map lowerASCII s)
      else MapToLower u s)"

definition TrimSpace :: "Unicode \<Rightarrow> string \<Rightarrow> string" where
  "TrimSpace u s =
     (case dropWhile asciiSpace s of
        [] \<Rightarrow> []
      | c # cs \<Rightarrow>
          if \<not> isASCII c then TrimFuncIsSpace u (c # cs)
          else (case dropWhile asciiSpace (rev (c # cs)) of
                  [] \<Rightarrow> []
                | d # ds \<Rightarrow>
                    if \<not> isASCII d then TrimRightFuncIsSpace u (rev (d # ds))
                    else rev (d # ds)))"

text \<open>A \<open>'%s'\<close> of a format string: the argument between single quotes.\<close>

definition quoted :: "string \<Rightarrow> string" where
  "quoted s = [CHR 0x27] @ s @ [CHR 0x27]"

section \<open>The file system\<close>

text \<open>
  \<open>afero.Fs\<close>, as far as the program uses it: \<open>Stat\<close> (of whose \<open>FileInfo\<close> only the
  size is read) and \<open>Open\<close>. A handle that \<open>Open\<close> returns starts at offset 0.
\<close>

record Fs =
  Stat :: "string \<Rightarrow> error + int64"
  Open :: "string \<Rightarrow> error + File"

definition fsOpen :: "Fs \<Rightarrow> string \<Rightarrow> error + File" where
  "fsOpen fsys name =
     (case Open fsys name of
        Inl err \<Rightarrow> Inl err
      | Inr f \<Rightarrow> Inr (f\<lparr>f_pos := 0\<rparr>))"

text \<open>\<open>afero.NewMemMapFs\<close> holding the given files, as the tests use it.\<close>

definition MemMapFs :: "(string \<times> byte list) list \<Rightarrow> Fs" where
  "MemMapFs fl =
     \<lparr>Stat = (\<lambda>name. case map_of fl name of
                 None \<Rightarrow> Inl (New ''file does not exist'')
               | Some d \<Rightarrow> Inr (of_nat (length d))),
      Open = (\<lambda>name. case map_of fl name of
                 None \<Rightarrow> Inl (New ''file does not exist'')
               | Some d \<Rightarrow> Inr \<lparr>f_data = d, f_pos = 0, f_readErr = None, f_seekErr = None\<rparr>)\<rparr>"

section \<open>publish.go: the request and its validation\<close>

definition TrackInternal :: string where "TrackInternal = ''internal''"
definition TrackAlpha :: string where "TrackAlpha = ''alpha''"
definition TrackBeta :: string where "TrackBeta = ''beta''"
definition TrackProduction :: string where "TrackProduction = ''production''"

record binary =
  filePath :: string
  mappingPath :: string

definition BinaryWithMapping :: "string \<Rightarrow> string \<Rightarrow> binary" where
  "BinaryWithMapping path mapping = \<lparr>filePath = path, mappingPath = mapping\<rparr>"

definition Binary :: "string \<Rightarrow> binary" where
  "Binary path = \<lparr>filePath = path, mappingPath = []\<rparr>"

record publish =
  packageName :: string
  track :: string
  authFile :: string
  files :: "binary list"
  apk :: bool
  verbose :: bool
  fs :: Fs

definition fileExits :: "publish \<Rightarrow> string \<Rightarrow> bool" where
  "fileExits p file = (case Stat (fs p) file of Inr info \<Rightarrow> True | Inl err \<Rightarrow> False)"

text \<open>The loop of \<open>Publish\<close> over the files: the first missing binary or mapping file
  ends it with an error.\<close>

fun checkFiles :: "publish \<Rightarrow> binary list \<Rightarrow> error option" where
  "checkFiles p [] = None"
| "checkFiles p (f # rest) =
     (if \<not> fileExits p (filePath f)
      then Some (New (''binary file '' @ quoted (filePath f) @ '' does not exist''))
      else if mappingPath f \<noteq> [] \<and> \<not> fileExits p (mappingPath f)
      then Some (New (''mappings file '' @ quoted (mappingPath f) @ '' does not exist''))
      else checkFiles p rest)"

definition Publish ::
  "Unicode \<Rightarrow> Fs \<Rightarrow> string \<Rightarrow> string \<Rightarrow> string \<Rightarrow> binary list \<Rightarrow> bool \<Rightarrow> bool
     \<Rightarrow> error + publish" where
  "Publish u fsys pkg trk auth fl isApk verb =
     (let p = \<lparr>packageName = [], track = [], authFile = [], files = [], apk = False,
                verbose = verb, fs = fsys\<rparr>
      in if \<not> fileExits p auth
         then Inl (New (''authentication file '' @ quoted auth @ '' does not exist''))
         else let name = TrimSpace u pkg
         in if name = [] then Inl (New ''package name must not be empty'')
         else let t = TrimSpace u (ToLower u trk)
         in if t = [] then Inl (New ''track name to publish binary to is required'')
         else if t \<noteq> TrackBeta \<and> t \<noteq> TrackAlpha \<and> t \<noteq> TrackInternal
         then Inl (New (''provided track type '' @ quoted t
                        @ '' not supported. Only supported types are '' @ quoted TrackBeta
                        @ '' '' @ quoted TrackAlpha @ '' '' @ quoted TrackInternal))
         else if length fl = 0 then Inl (New ''no files to upload provided'')
         else (case checkFiles p fl of
                 Some err \<Rightarrow> Inl err
               | None \<Rightarrow>
                   Inr (p\<lparr>files := fl, authFile := auth, packageName := name, track := t,
                          apk := isApk\<rparr>)))"

section \<open>The remote service\<close>

text \<open>
  An \<open>io.Reader\<close> handed to the service: a file, or a file behind the progress reporter
  \<open>ioprogress.Reader{Reader: f, Size: size, ...}\<close>, which forwards the bytes of \<open>f\<close>
  unchanged.
\<close>

datatype Reader = FileReader File | ProgressReader File int64

fun streamBytes :: "Reader \<Rightarrow> byte list" where
  "streamBytes (FileReader f) = unread f"
| "streamBytes (ProgressReader f sz) = unread f"

text \<open>
  \<open>IGService\<close> (\<open>IEditsService\<close>, \<open>IUploadService\<close> and \<open>IDraftService\<close>). The service
  is an external collaborator: each operation is a function of its arguments and of the
  state \<open>'s\<close> of the service, and returns its result with the next state.
\<close>

record 's IGService =
  createEdit :: "string \<Rightarrow> 's \<Rightarrow> (error + string) \<times> 's"
  validateEdit :: "string \<Rightarrow> string \<Rightarrow> 's \<Rightarrow> error option \<times> 's"
  deleteEdit :: "string \<Rightarrow> string \<Rightarrow> 's \<Rightarrow> error option \<times> 's"
  commitEdit :: "string \<Rightarrow> string \<Rightarrow> 's \<Rightarrow> error option \<times> 's"
  uploadBundle :: "Reader \<Rightarrow> string \<Rightarrow> string \<Rightarrow> 's \<Rightarrow> (error + int64 \<times> string) \<times> 's"
  uploadApk :: "Reader \<Rightarrow> string \<Rightarrow> string \<Rightarrow> 's \<Rightarrow> (error + int64 \<times> string) \<times> 's"
  uploadProguardMapping :: "Reader \<Rightarrow> string \<Rightarrow> string \<Rightarrow> int64 \<Rightarrow> 's \<Rightarrow> error option \<times> 's"
  createDraft :: "string \<Rightarrow> string \<Rightarrow> string \<Rightarrow> int64 list \<Rightarrow> 's \<Rightarrow> error option \<times> 's"

text \<open>
  To count calls, as the mock of the tests does with its counters, every call of the
  service is recorded with its arguments and its result.
\<close>

datatype event =
    is_createEdit: EvCreateEdit string "error + string"
  | is_validateEdit: EvValidateEdit string string "error option"
  | is_deleteEdit: EvDeleteEdit string string "error option"
  | is_commitEdit: EvCommitEdit string string "error option"
  | is_uploadBundle: EvUploadBundle Reader string string "error + int64 \<times> string"
  | is_uploadApk: EvUploadApk Reader string string "error + int64 \<times> string"
  | is_uploadProguardMapping: EvUploadProguardMapping Reader string string int64 "error option"

record 's world =
  svc :: 's
  trace :: "event list"

definition call_createEdit ::
  "'s IGService \<Rightarrow> string \<Rightarrow> 's world \<Rightarrow> (error + string) \<times> 's world" where
  "call_createEdit gs pkg w =
     (case createEdit gs pkg (svc w) of
        (r, s) \<Rightarrow> (r, \<lparr>svc = s, trace = trace w @ [EvCreateEdit pkg r]\<rparr>))"

definition call_validateEdit ::
  "'s IGService \<Rightarrow> string \<Rightarrow> string \<Rightarrow> 's world \<Rightarrow> error option \<times> 's world" where
  "call_validateEdit gs pkg editId w =
     (case validateEdit gs pkg editId (svc w) of
        (r, s) \<Rightarrow> (r, \<lparr>svc = s, trace = trace w @ [EvValidateEdit pkg editId r]\<rparr>))"

definition call_deleteEdit ::
  "'s IGService \<Rightarrow> string \<Rightarrow> string \<Rightarrow> 's world \<Rightarrow> error option \<times> 's world" where
  "call_deleteEdit gs pkg editId w =
     (case deleteEdit gs pkg editId (svc w) of
        (r, s) \<Rightarrow> (r, \<lparr>svc = s, trace = trace w @ [EvDeleteEdit pkg editId r]\<rparr>))"

definition call_commitEdit ::
  "'s IGService \<Rightarrow> string \<Rightarrow> string \<Rightarrow> 's world \<Rightarrow> error option \<times> 's world" where
  "call_commitEdit gs pkg editId w =
     (case commitEdit gs pkg editId (svc w) of
        (r, s) \<Rightarrow> (r, \<lparr>svc = s, trace = trace w @ [EvCommitEdit pkg editId r]\<rparr>))"

definition call_uploadBundle ::
  "'s IGService \<Rightarrow> Reader \<Rightarrow> string \<Rightarrow> string \<Rightarrow> 's world
     \<Rightarrow> (error + int64 \<times> string) \<times> 's world" where
  "call_uploadBundle us r pkg editId w =
     (case uploadBundle us r pkg editId (svc w) of
        (res, s) \<Rightarrow> (res, \<lparr>svc = s, trace = trace w @ [EvUploadBundle r pkg editId res]\<rparr>))"

definition call_uploadApk ::
  "'s IGService \<Rightarrow> Reader \<Rightarrow> string \<Rightarrow> string \<Rightarrow> 's world
     \<Rightarrow> (error + int64 \<times> string) \<times> 's world" where
  "call_uploadApk us r pkg editId w =
     (case uploadApk us r pkg editId (svc w) of
        (res, s) \<Rightarrow> (res, \<lparr>svc = s, trace = trace w @ [EvUploadApk r pkg editId res]\<rparr>))"

definition call_uploadProguardMapping ::
  "'s IGService \<Rightarrow> Reader \<Rightarrow> string \<Rightarrow> string \<Rightarrow> int64 \<Rightarrow> 's world
     \<Rightarrow> error option \<times> 's world" where
  "call_uploadProguardMapping us r pkg editId v w =
     (case uploadProguardMapping us r pkg editId v (svc w) of
        (res, s) \<Rightarrow>
          (res, \<lparr>svc = s, trace = trace w @ [EvUploadProguardMapping r pkg editId v res]\<rparr>))"

section \<open>publish.go: the upload\<close>

text \<open>A call either returns to its caller, or ends the process: \<open>log.Fatal\<close> prints the
  error and calls \<open>os.Exit(1)\<close>.\<close>

datatype 'a outcome = Returns 'a | Exits error

text \<open>\<open>fileSize\<close> (util.go): the size that \<open>Stat\<close> reports; \<open>log.Fatal\<close> on an error.\<close>

definition fileSize :: "publish \<Rightarrow> string \<Rightarrow> int64 outcome" where
  "fileSize p file =
     (case Stat (fs p) file of
        Inl err \<Rightarrow> Exits err
      | Inr sz \<Rightarrow> Returns sz)"

text \<open>
  \<open>upload\<close>: open the file, hash it, wrap it in the progress reporter, upload it as a
  bundle or as an apk, and compare the hash the service reports with the local one. The
  Go function returns \<open>-1\<close> beside every error; the model returns the error alone.
\<close>

definition upload ::
  "publish \<Rightarrow> 's IGService \<Rightarrow> string \<Rightarrow> string \<Rightarrow> bool \<Rightarrow> 's world
     \<Rightarrow> (error + int64) outcome \<times> 's world" where
  "upload p us path editId isApk w =
     (case fsOpen (fs p) path of
        Inl err \<Rightarrow> (Returns (Inl err), w)
      | Inr f0 \<Rightarrow>
          (case fileSha256 f0 of
             Inl err \<Rightarrow>
               (Returns (Inl (Wrap (''failed calculating '' @ quoted path @ '' sha256 hash: ''
                                     @ errorString err) err)), w)
           | Inr (hash, f) \<Rightarrow>
               (case fileSize p path of
                  Exits err \<Rightarrow> (Exits err, w)
                | Returns sz \<Rightarrow>
                    (case (if isApk then call_uploadApk else call_uploadBundle) us
                            (ProgressReader f sz) (packageName p) editId w of
                       (Inl err, w1) \<Rightarrow> (Returns (Inl err), w1)
                     | (Inr (v, remote), w1) \<Rightarrow>
                         if remote \<noteq> hash
                         then (Returns (Inl (New (''failed integrity verification with local file hash ''
                                                   @ quoted hash @ '' and remote '' @ quoted remote))),
                               w1)
                         else (Returns (Inr v), w1)))))"

definition uploadMapping ::
  "publish \<Rightarrow> 's IGService \<Rightarrow> string \<Rightarrow> string \<Rightarrow> int64 \<Rightarrow> 's world
     \<Rightarrow> error option \<times> 's world" where
  "uploadMapping p us path editId appVersionCode w =
     (case fsOpen (fs p) path of
        Inl err \<Rightarrow> (Some err, w)
      | Inr f \<Rightarrow>
          (case call_uploadProguardMapping us (FileReader f) (packageName p) editId
                  appVersionCode w of
             (Some err, w1) \<Rightarrow> (Some err, w1)
           | (None, w1) \<Rightarrow> (None, w1)))"

text \<open>
  The body of the loop of \<open>UploadFiles\<close> for one entry: \<open>Inl err\<close> is the early
  \<open>return err\<close> (after \<open>deleteEdit\<close>), \<open>Inr versions\<close> goes on with the next entry.
\<close>

definition uploadEntry ::
  "publish \<Rightarrow> 's IGService \<Rightarrow> string \<Rightarrow> binary \<Rightarrow> int64 list \<Rightarrow> 's world
     \<Rightarrow> (error + int64 list) outcome \<times> 's world" where
  "uploadEntry p gs edit f versions w =
     (case upload p gs (filePath f) edit (apk p) w of
        (Exits err, w1) \<Rightarrow> (Exits err, w1)
      | (Returns (Inl err), w1) \<Rightarrow>
          (Returns (Inl err), snd (call_deleteEdit gs (packageName p) edit w1))
      | (Returns (Inr v), w1) \<Rightarrow>
          if mappingPath f = [] then (Returns (Inr (versions @ [v])), w1)
          else (case uploadMapping p gs (mappingPath f) edit v w1 of
                  (Some err, w2) \<Rightarrow>
                    (Returns (Inl err), snd (call_deleteEdit gs (packageName p) edit w2))
                | (None, w2) \<Rightarrow> (Returns (Inr (versions @ [v])), w2)))"

fun uploadEntries ::
  "publish \<Rightarrow> 's IGService \<Rightarrow> string \<Rightarrow> binary list \<Rightarrow> int64 list \<Rightarrow> 's world
     \<Rightarrow> (error + int64 list) outcome \<times> 's world" where
  "uploadEntries p gs edit [] versions w = (Returns (Inr versions), w)"
| "uploadEntries p gs edit (f # rest) versions w =
     (case uploadEntry p gs edit f versions w of
        (Returns (Inr versions1), w1) \<Rightarrow> uploadEntries p gs edit rest versions1 w1
      | (Returns (Inl err), w1) \<Rightarrow> (Returns (Inl err), w1)
      | (Exits err, w1) \<Rightarrow> (Exits err, w1))"

text \<open>\<open>UploadFiles\<close>; the service is \<open>None\<close> for a nil interface value. The
  messages of \<open>Debugf\<close> and \<open>log.Println\<close> go to the log only, and the deferred
  \<open>f.Close()\<close> of \<open>upload\<close> and \<open>uploadMapping\<close> ends the use of a handle that
  nothing reads afterwards; neither is part of the model.\<close>

definition UploadFiles ::
  "publish \<Rightarrow> 's IGService option \<Rightarrow> 's world \<Rightarrow> error option outcome \<times> 's world" where
  "UploadFiles p gso w =
     (case gso of
        None \<Rightarrow> (Returns (Some (New ''no Google Playstore service instance provided'')), w)
      | Some gs \<Rightarrow>
          (case call_createEdit gs (packageName p) w of
             (Inl err, w1) \<Rightarrow> (Returns (Some err), w1)
           | (Inr edit, w1) \<Rightarrow>
               (case uploadEntries p gs edit (files p) [] w1 of
                  (Exits err, w2) \<Rightarrow> (Exits err, w2)
                | (Returns (Inl err), w2) \<Rightarrow> (Returns (Some err), w2)
                | (Returns (Inr versions), w2) \<Rightarrow>
                    (case call_validateEdit gs (packageName p) edit w2 of
                       (Some err, w3) \<Rightarrow>
                         (Returns (Some err), snd (call_deleteEdit gs (packageName p) edit w3))
                     | (None, w3) \<Rightarrow>
                         (case call_commitEdit gs (packageName p) edit w3 of
                            (Some err, w4) \<Rightarrow>
                              (Returns (Some err),
                               snd (call_deleteEdit gs (packageName p) edit w4))
                          | (None, w4) \<Rightarrow> (Returns None, w4))))))"

text \<open>The record of a binary upload: \<open>uploadApk\<close> when the flag is set, \<open>uploadBundle\<close>
  otherwise.\<close>

definition EvUpload ::
  "bool \<Rightarrow> Reader \<Rightarrow> string \<Rightarrow> string \<Rightarrow> error + int64 \<times> string \<Rightarrow> event" where
  "EvUpload isApk r pkg editId res =
     (if isApk then EvUploadApk r pkg editId res else EvUploadBundle r pkg editId res)"

definition uploadsOnly :: "event list \<Rightarrow> bool" where
  "uploadsOnly evs =
     list_all (\<lambda>e. is_uploadBundle e \<or> is_uploadApk e \<or> is_uploadProguardMapping e) evs"

text \<open>
  Follows the spec's words (Upload Orchestrator, steps 3 to 5): the steps that come after
  the creation of the edit, in request order and without any cleanup. For each entry the
  binary is uploaded and verified (\<open>upload\<close>: opening, hashing, the upload call, the
  comparison of the hashes) and then, when the entry has a mapping path, the mapping
  file is uploaded (\<open>uploadMapping\<close>); after the entries come \<open>validateEdit\<close> and
  \<open>commitEdit\<close>. The steps stop at the first one that fails: \<open>Returns (Some err)\<close> is
  the error of that step, with the state it left; \<open>Returns None\<close> says that every step
  succeeded; \<open>Exits\<close> is the end of the process in \<open>fileSize\<close>.
\<close>

fun spec_entrySteps ::
  "publish \<Rightarrow> 's IGService \<Rightarrow> string \<Rightarrow> binary list \<Rightarrow> 's world
     \<Rightarrow> error option outcome \<times> 's world" where
  "spec_entrySteps p gs edit [] w = (Returns None, w)"
| "spec_entrySteps p gs edit (f # rest) w =
     (case upload p gs (filePath f) edit (apk p) w of
        (Exits err, w1) \<Rightarrow> (Exits err, w1)
      | (Returns (Inl err), w1) \<Rightarrow> (Returns (Some err), w1)
      | (Returns (Inr v), w1) \<Rightarrow>
          if mappingPath f = [] then spec_entrySteps p gs edit rest w1
          else (case uploadMapping p gs (mappingPath f) edit v w1 of
                  (Some err, w2) \<Rightarrow> (Returns (Some err), w2)
                | (None, w2) \<Rightarrow> spec_entrySteps p gs edit rest w2))"

definition spec_laterSteps ::
  "publish \<Rightarrow> 's IGService \<Rightarrow> string \<Rightarrow> 's world \<Rightarrow> error option outcome \<times> 's world" where
  "spec_laterSteps p gs edit w =
     (case spec_entrySteps p gs edit (files p) w of
        (Exits err, w1) \<Rightarrow> (Exits err, w1)
      | (Returns (Some err), w1) \<Rightarrow> (Returns (Some err), w1)
      | (Returns None, w1) \<Rightarrow>
          (case call_validateEdit gs (packageName p) edit w1 of
             (Some err, w2) \<Rightarrow> (Returns (Some err), w2)
           | (None, w2) \<Rightarrow>
               (case call_commitEdit gs (packageName p) edit w2 of
                  (Some err, w3) \<Rightarrow> (Returns (Some err), w3)
                | (None, w3) \<Rightarrow> (Returns None, w3))))"

text \<open>The number of recorded calls of one kind.\<close>

definition calls :: "(event \<Rightarrow> bool) \<Rightarrow> event list \<Rightarrow> nat" where
  "calls kind evs = length (filter kind evs)"

text \<open>
  A service for the concrete examples, after the mock of the tests (\<open>mockGService\<close>):
  every operation succeeds, the edit is \<open>1\<close>, and an upload answers with the version
  code of the mock and with the hash of the bytes it received, or with the hash
  configured in the mock when that is not empty.
\<close>

record mockGService =
  AppVersionCode :: int64
  Sha256 :: string

definition mockHash :: "Reader \<Rightarrow> mockGService \<Rightarrow> mockGService" where
  "mockHash r m =
     (if Sha256 m = [] then m\<lparr>Sha256 := EncodeToString (sha256 (streamBytes r))\<rparr> else m)"

definition mockService :: "mockGService IGService" where
  "mockService =
     \<lparr>createEdit = (\<lambda>pkg m. (Inr ''1'', m)),
      validateEdit = (\<lambda>pkg editId m. (None, m)),
      deleteEdit = (\<lambda>pkg editId m. (None, m)),
      commitEdit = (\<lambda>pkg editId m. (None, m)),
      uploadBundle = (\<lambda>r pkg editId m.
         (Inr (AppVersionCode (mockHash r m), Sha256 (mockHash r m)), mockHash r m)),
      uploadApk = (\<lambda>r pkg editId m.
         (Inr (AppVersionCode (mockHash r m), Sha256 (mockHash r m)), mockHash r m)),
      uploadProguardMapping = (\<lambda>r pkg editId v m.
         (None, (mockHash r m)\<lparr>AppVersionCode := v\<rparr>)),
      createDraft = (\<lambda>pkg editId trackName vs m. (None, m))\<rparr>"

text \<open>A request and a file system for the concrete examples: one bundle with a mapping
  file, as the tests build them.\<close>

definition testFs :: Fs where
  "testFs = MemMapFs [(''auth.json'', []), (''test.aab'', [1, 2, 3]), (''mapping.txt'', [4, 5])]"

definition testPublish :: publish where
  "testPublish =
     \<lparr>packageName = ''com.test.app'', track = ''internal'', authFile = ''auth.json'',
      files = [BinaryWithMapping ''test.aab'' ''mapping.txt''], apk = False, verbose = False,
      fs = testFs\<rparr>"

definition mockWorld :: "string \<Rightarrow> mockGService world" where
  "mockWorld sha = \<lparr>svc = \<lparr>AppVersionCode = 7, Sha256 = sha\<rparr>, trace = []\<rparr>"

text \<open>The paths that \<open>Publish\<close> looks up, in the order of its loop: for each entry the
  binary, then the mapping file when one is given.\<close>

definition checkedPaths :: "binary list \<Rightarrow> string list" where
  "checkedPaths fl =
     concat (map (\<lambda>f. filePath f # (if mappingPath f = [] then [] else [mappingPath f])) fl)"

text \<open>A stand-in for the Unicode tables in the concrete examples below: their strings
  are ASCII, so the tables are never consulted.\<close>

definition unicodeStub :: Unicode where
  "unicodeStub = \<lparr>MapToLower = (\<lambda>s. s), TrimFuncIsSpace = (\<lambda>s. s),
                   TrimRightFuncIsSpace = (\<lambda>s. s)\<rparr>"

section \<open>Properties of the hash\<close>

lemma sched_extend_numeral:
  "sched_extend (numeral n) ws =
     sched_extend (pred_numeral n) ((ssig1 (ws ! 1) + ws ! 6 + ssig0 (ws ! 14) + ws ! 15) # ws)"
  by (simp add: numeral_eq_Suc)

lemma replicate_numeral: "replicate (numeral n) x = x # replicate (pred_numeral n) x"
  by (simp add: numeral_eq_Suc)

lemma length_extend: "length (sched_extend n ws) = n + length ws"
  by (induction n arbitrary: ws) auto

lemma length_compress: "length hs = 8 \<Longrightarrow> length (compress hs blk) = 8"
proof -
  assume "length hs = 8"
  then obtain h0 h1 h2 h3 h4 h5 h6 h7 where "hs = [h0, h1, h2, h3, h4, h5, h6, h7]"
    by (auto simp: eval_nat_numeral length_Suc_conv)
  then show ?thesis
    by (simp split: prod.splits)
qed

lemma length_foldl_compress: "length hs = 8 \<Longrightarrow> length (foldl compress hs bs) = 8"
  by (induction bs arbitrary: hs) (simp_all add: length_compress)

lemma length_concat_be_bytes32: "length (concat (map be_bytes32 ws)) = 4 * length ws"
  by (induction ws) (simp_all add: be_bytes32_def)

lemma length_sha256: "length (sha256 m) = 32"
  by (simp add: sha256_def Let_def length_concat_be_bytes32 length_foldl_compress
      sha256_init_def)

lemma length_EncodeToString: "length (EncodeToString src) = 2 * length src"
  by (induction src) (simp_all add: EncodeToString_def)

lemma high_nibble_less: "unat (drop_bit 4 (v :: byte)) < 16"
proof -
  have "unat v < 256"
    using unsigned_less [of v, where ?'a = nat] by simp
  then show ?thesis
    by (simp add: drop_bit_eq_div unat_div less_mult_imp_div_less)
qed

lemma low_nibble_less: "unat ((v :: byte) AND 0x0f) < 16"
proof -
  have "unat (v AND 0x0f) \<le> unat (0x0f :: byte)"
    by (rule word_and_le1 [THEN word_le_nat_alt [THEN iffD1]])
  then show ?thesis by simp
qed

lemma hextable_nth_mem: "n < 16 \<Longrightarrow> hextable ! n \<in> set hextable"
  by (rule nth_mem) (simp add: hextable_def)

lemma EncodeToString_hex: "c \<in> set (EncodeToString src) \<Longrightarrow> c \<in> set hextable"
  by (induction src)
     (auto simp: EncodeToString_def high_nibble_less low_nibble_less
           intro: hextable_nth_mem)

lemma blocks_numeral:
  "blocks (numeral n) ws = take 16 ws # blocks (pred_numeral n) (drop 16 ws)"
  by (simp add: numeral_eq_Suc)

lemmas sha256_eval =
  sha256_def sha256_pad_def bytes_of_def be_bytes64_def replicate_numeral blocks_numeral
  schedule_def sched_extend_numeral sha256_init_def sha256_K_def rotr_def bsig1_def bsig0_def
  Ch_def Maj_def ssig0_def ssig1_def be_bytes32_def

text \<open>The two examples of the standard: a message of one block and one of two.\<close>

lemma sha256_example_abc:
  "EncodeToString (sha256 (bytes_of ''abc'')) =
     ''ba7816bf8f01cfea414140de5dae2223b00361a396177a9cb410ff61f20015ad''"
  by (simp add: sha256_eval EncodeToString_def hextable_def)

lemma sha256_example_two_blocks:
  "EncodeToString
     (sha256 (bytes_of ''abcdbcdecdefdefgefghfghighijhijkijkljklmklmnlmnomnopnopq'')) =
     ''248d6a61d20638b8e5c026930c3e6039a33ce45964ff2167f6ecedd419db06c1''"
  by (simp add: sha256_eval EncodeToString_def hextable_def)

lemma sha256_testinputdata:
  "sha256 (bytes_of ''testinputdata'') =
     [0xb5, 0xa7, 0xe3, 0x88, 0x4f, 0x76, 0x0b, 0x19, 0x7b, 0x8e, 0x9d, 0xf9, 0x8b, 0xab,
      0x2d, 0x35, 0x33, 0x39, 0x43, 0xbc, 0x74, 0x39, 0xe0, 0xbb, 0xa0, 0x0e, 0xd8, 0x72,
      0x13, 0xa4, 0x4f, 0x43]"
  by (simp add: sha256_eval)

lemma hex_testinputdata:
  "EncodeToString
     [0xb5, 0xa7, 0xe3, 0x88, 0x4f, 0x76, 0x0b, 0x19, 0x7b, 0x8e, 0x9d, 0xf9, 0x8b, 0xab,
      0x2d, 0x35, 0x33, 0x39, 0x43, 0xbc, 0x74, 0x39, 0xe0, 0xbb, 0xa0, 0x0e, 0xd8, 0x72,
      0x13, 0xa4, 0x4f, 0x43] =
   ''b5a7e3884f760b197b8e9df98bab2d35333943bc7439e0bba00ed87213a44f43''"
  by (simp add: EncodeToString_def hextable_def)

lemma fileSha256_ok:
  "f_readErr r = None \<Longrightarrow> f_seekErr r = None \<Longrightarrow>
   fileSha256 r =
     Inr (EncodeToString (sha256 (unread r)),
          r\<lparr>f_pos := 0\<rparr>)"
  by (simp add: fileSha256_def io_Copy_def SeekStart_def)

lemma fileSha256_NewReader:
  "fileSha256 (NewReader s) = Inr (EncodeToString (sha256 (bytes_of s)), NewReader s)"
  by (simp add: fileSha256_def io_Copy_def SeekStart_def NewReader_def unread_def)

text \<open>
  C8. \<open>fileSha256\<close> hashes every byte the reader delivers up to the end of file (for a
  reader at offset 0, such as \<open>strings.NewReader\<close> gives, the full content) with SHA-256,
  resets the reader to offset 0, and returns the digest as 64 characters of lowercase
  hexadecimal; on the bytes of \<open>testinputdata\<close> the result is
  \<open>b5a7e3884f760b197b8e9df98bab2d35333943bc7439e0bba00ed87213a44f43\<close>.
\<close>

theorem fileSha256_sha256_lowercase_hex:
  "(f_readErr r = None \<and> f_seekErr r = None \<longrightarrow>
      fileSha256 r = Inr (EncodeToString (sha256 (unread r)), r\<lparr>f_pos := 0\<rparr>))
   \<and> fileSha256 (NewReader s) = Inr (EncodeToString (sha256 (bytes_of s)), NewReader s)
   \<and> length (EncodeToString (sha256 m)) = 64
   \<and> set (EncodeToString (sha256 m)) \<subseteq> set ''0123456789abcdef''
   \<and> fileSha256 (NewReader ''testinputdata'') =
       Inr (''b5a7e3884f760b197b8e9df98bab2d35333943bc7439e0bba00ed87213a44f43'',
            NewReader ''testinputdata'')"
proof (intro conjI impI)
  assume "f_readErr r = None \<and> f_seekErr r = None"
  then show "fileSha256 r = Inr (EncodeToString (sha256 (unread r)), r\<lparr>f_pos := 0\<rparr>)"
    by (simp add: fileSha256_ok)
next
  show "fileSha256 (NewReader s) = Inr (EncodeToString (sha256 (bytes_of s)), NewReader s)"
    by (rule fileSha256_NewReader)
next
  show "length (EncodeToString (sha256 m)) = 64"
    by (simp add: length_EncodeToString length_sha256)
next
  show "set (EncodeToString (sha256 m)) \<subseteq> set ''0123456789abcdef''"
    using EncodeToString_hex [of _ "sha256 m"]
    unfolding hextable_def by blast
next
  show "fileSha256 (NewReader ''testinputdata'') =
       Inr (''b5a7e3884f760b197b8e9df98bab2d35333943bc7439e0bba00ed87213a44f43'',
            NewReader ''testinputdata'')"
    by (simp only: fileSha256_NewReader sha256_testinputdata hex_testinputdata)
qed

theorem fileSha256_sha256_lowercase_hex_witness:
  "fileSha256 \<lparr>f_data = [0x61, 0x62, 0x63], f_pos = 1, f_readErr = None, f_seekErr = None\<rparr> =
     Inr (EncodeToString (sha256 [0x62, 0x63]),
          \<lparr>f_data = [0x61, 0x62, 0x63], f_pos = 0, f_readErr = None, f_seekErr = None\<rparr>)"
  using fileSha256_sha256_lowercase_hex
    [of "\<lparr>f_data = [0x61, 0x62, 0x63], f_pos = 1, f_readErr = None, f_seekErr = None\<rparr>"]
  by (simp add: unread_def)

section \<open>Properties of the string functions\<close>

lemmas string_eval =
  ToLower_def TrimSpace_def isASCII_def isUpperASCII_def lowerASCII_def asciiSpace_def
  quoted_def char_of_def bit_Suc_0_iff
  TrackInternal_def TrackAlpha_def TrackBeta_def TrackProduction_def

lemma isASCII_lowerASCII: "isASCII (lowerASCII c) \<Longrightarrow> isASCII c"
  by (auto simp: isASCII_def lowerASCII_def isUpperASCII_def split: if_splits)

lemma asciiSpace_lowerASCII: "asciiSpace c \<Longrightarrow> lowerASCII c = c"
  by (auto simp: asciiSpace_def lowerASCII_def isUpperASCII_def)

lemma asciiSpace_isASCII: "asciiSpace c \<Longrightarrow> isASCII c"
  by (auto simp: asciiSpace_def isASCII_def)

lemma lowerASCII_id: "\<not> isUpperASCII c \<Longrightarrow> lowerASCII c = c"
  by (simp add: lowerASCII_def)

lemma ToLower_ASCII: "list_all isASCII s \<Longrightarrow> ToLower u s = map lowerASCII s"
proof -
  assume a: "list_all isASCII s"
  have "\<not> list_ex isUpperASCII s \<Longrightarrow> map lowerASCII s = s"
    by (induction s) (simp_all add: lowerASCII_id)
  with a show ?thesis
    by (simp add: ToLower_def)
qed

lemma TrimSpace_core:
  assumes ws1: "list_all asciiSpace ws1" and ws2: "list_all asciiSpace ws2"
    and ne: "core \<noteq> []"
    and hd: "isASCII (hd core)" "\<not> asciiSpace (hd core)"
    and lst: "isASCII (last core)" "\<not> asciiSpace (last core)"
  shows "TrimSpace u (ws1 @ core @ ws2) = core"
proof -
  from ne obtain c cs where core: "core = c # cs"
    by (cases core) auto
  from ne obtain d ds where rcore: "rev core = d # ds"
    by (cases "rev core") auto
  then have d: "d = last core"
    using ne by (metis last_rev list.sel(1) rev_rev_ident hd_rev)
  have left: "dropWhile asciiSpace (ws1 @ core @ ws2) = c # cs @ ws2"
    using ws1 hd core by (simp add: dropWhile_append3 list_all_iff)
  have right: "dropWhile asciiSpace (rev (c # cs @ ws2)) = d # ds"
  proof -
    have "rev (c # cs @ ws2) = rev ws2 @ d # ds"
      using core rcore by simp
    moreover have "dropWhile asciiSpace (rev ws2 @ d # ds) = d # ds"
      using ws2 lst d by (simp add: dropWhile_append3 list_all_iff)
    ultimately show ?thesis by simp
  qed
  have "rev (d # ds) = core"
    using rcore by (metis rev_rev_ident)
  with left right hd lst core d show ?thesis
    by (simp add: TrimSpace_def)
qed

lemma track_normal_form:
  assumes ws1: "list_all asciiSpace ws1" and ws2: "list_all asciiSpace ws2"
    and x: "map lowerASCII x = t"
    and t: "t \<in> {TrackInternal, TrackAlpha, TrackBeta}"
  shows "TrimSpace u (ToLower u (ws1 @ x @ ws2)) = t"
proof -
  have tascii: "list_all isASCII t"
    using t by (auto simp: TrackInternal_def TrackAlpha_def TrackBeta_def isASCII_def)
  have "list_all isASCII x"
    using tascii x by (auto simp: list_all_iff dest: isASCII_lowerASCII)
  then have "list_all isASCII (ws1 @ x @ ws2)"
    using ws1 ws2 by (auto simp: list_all_iff dest: asciiSpace_isASCII)
  then have "ToLower u (ws1 @ x @ ws2) = map lowerASCII (ws1 @ x @ ws2)"
    by (rule ToLower_ASCII)
  also have "\<dots> = ws1 @ t @ ws2"
    using ws1 ws2 x by (simp add: list_all_iff map_idI asciiSpace_lowerASCII)
  finally have "ToLower u (ws1 @ x @ ws2) = ws1 @ t @ ws2" .
  moreover have "TrimSpace u (ws1 @ t @ ws2) = t"
    using t ws1 ws2
    by (intro TrimSpace_core)
       (auto simp: TrackInternal_def TrackAlpha_def TrackBeta_def isASCII_def asciiSpace_def)
  ultimately show ?thesis by simp
qed


section \<open>Properties of the validation\<close>

lemmas publish_eval =
  Publish_def fileExits_def MemMapFs_def Binary_def BinaryWithMapping_def unicodeStub_def
  checkedPaths_def

lemma sublist_quoted: "sublist s (a @ quoted s @ b)"
  unfolding sublist_def quoted_def
  by (intro exI [of _ "a @ [CHR 0x27]"] exI [of _ "[CHR 0x27] @ b"]) simp

lemma fileExits_iff: "fileExits p file \<longleftrightarrow> \<not> isl (Stat (fs p) file)"
  by (simp add: fileExits_def split: sum.splits)

lemma checkFiles_None:
  "checkFiles p fl = None \<longleftrightarrow> (\<forall>q\<in>set (checkedPaths fl). \<not> isl (Stat (fs p) q))"
  by (induction fl) (auto simp: checkedPaths_def fileExits_iff)

lemma checkFiles_Some:
  "checkFiles p fl = Some err \<Longrightarrow>
   \<exists>q. List.find (\<lambda>q. isl (Stat (fs p) q)) (checkedPaths fl) = Some q
     \<and> (err = New (''binary file '' @ quoted q @ '' does not exist'')
        \<or> err = New (''mappings file '' @ quoted q @ '' does not exist''))"
  by (induction fl) (auto simp: checkedPaths_def fileExits_iff split: if_splits)

lemma Publish_auth_missing:
  "isl (Stat fsys auth) \<Longrightarrow>
   Publish u fsys pkg trk auth fl isApk verb =
     Inl (New (''authentication file '' @ quoted auth @ '' does not exist''))"
  by (simp add: Publish_def fileExits_iff)

lemma Publish_checks_passed:
  assumes "\<not> isl (Stat fsys auth)" and "TrimSpace u pkg \<noteq> []"
    and "TrimSpace u (ToLower u trk) \<in> {TrackInternal, TrackAlpha, TrackBeta}"
    and "fl \<noteq> []"
  shows "Publish u fsys pkg trk auth fl isApk verb =
     (case checkFiles \<lparr>packageName = [], track = [], authFile = [], files = [], apk = False,
                       verbose = verb, fs = fsys\<rparr> fl of
        Some err \<Rightarrow> Inl err
      | None \<Rightarrow> Inr \<lparr>packageName = TrimSpace u pkg, track = TrimSpace u (ToLower u trk),
                     authFile = auth, files = fl, apk = isApk, verbose = verb, fs = fsys\<rparr>)"
proof -
  have "TrimSpace u (ToLower u trk) \<noteq> []"
    using assms(3) by (auto simp: TrackInternal_def TrackAlpha_def TrackBeta_def)
  with assms show ?thesis
    by (auto simp: Publish_def Let_def fileExits_iff split: option.splits)
qed

lemma Publish_Inr:
  "Publish u fsys pkg trk auth fl isApk verb = Inr p \<Longrightarrow>
   p = \<lparr>packageName = TrimSpace u pkg, track = TrimSpace u (ToLower u trk),
        authFile = auth, files = fl, apk = isApk, verbose = verb, fs = fsys\<rparr>
   \<and> \<not> isl (Stat fsys auth) \<and> TrimSpace u pkg \<noteq> []
   \<and> TrimSpace u (ToLower u trk) \<in> {TrackInternal, TrackAlpha, TrackBeta}
   \<and> fl \<noteq> [] \<and> (\<forall>q\<in>set (checkedPaths fl). \<not> isl (Stat fsys q))"
  by (auto simp: Publish_def Let_def fileExits_iff checkFiles_None
           split: if_splits option.splits)


text \<open>
  C9. The authentication file is looked up before anything else: when it does not exist
  on the file system, \<open>Publish\<close> fails with the error that names its path, whatever the
  package name, the track and the list of binaries are.
\<close>

theorem Publish_auth_file_first:
  "isl (Stat fsys auth) \<Longrightarrow>
   Publish u fsys pkg trk auth fl isApk verb =
     Inl (New (''authentication file '' @ quoted auth @ '' does not exist''))
   \<and> sublist auth (errorString (projl (Publish u fsys pkg trk auth fl isApk verb)))"
proof -
  assume "isl (Stat fsys auth)"
  then have eq: "Publish u fsys pkg trk auth fl isApk verb =
     Inl (New (''authentication file '' @ quoted auth @ '' does not exist''))"
    by (rule Publish_auth_missing)
  have "sublist auth (''authentication file '' @ quoted auth @ '' does not exist'')"
    by (rule sublist_quoted)
  with eq show ?thesis
    by (simp only: sum.sel errorString.simps simp_thms)
qed

theorem Publish_auth_file_first_witness:
  "isl (Stat (MemMapFs [(''bin.aab'', [])]) ''auth.json'')
   \<and> Publish unicodeStub (MemMapFs [(''bin.aab'', [])]) ''  '' ''production'' ''auth.json'' []
        False False =
      Inl (New (''authentication file '' @ quoted ''auth.json'' @ '' does not exist''))"
  using Publish_auth_file_first
    [of "MemMapFs [(''bin.aab'', [])]" "''auth.json''" unicodeStub "''  ''" "''production''"
        "[]" False False]
  by (simp add: MemMapFs_def)

text \<open>
  C4, as stated, fails in two ways: a track that is not literally one of the three names
  is still accepted when it becomes one of them by lowercasing and trimming; and an
  empty or blank track is rejected with an error that names neither the track nor the
  allowed tracks.
\<close>

theorem Publish_track_literal_counterexample:
  "''INTERNAL'' \<notin> {TrackInternal, TrackAlpha, TrackBeta}
   \<and> Publish unicodeStub (MemMapFs [(''auth.json'', []), (''bin.aab'', [])])
        ''com.sample.app'' ''INTERNAL'' ''auth.json'' [Binary ''bin.aab''] False False =
      Inr \<lparr>packageName = ''com.sample.app'', track = ''internal'', authFile = ''auth.json'',
           files = [Binary ''bin.aab''], apk = False, verbose = False,
           fs = MemMapFs [(''auth.json'', []), (''bin.aab'', [])]\<rparr>
   \<and> '' '' \<notin> {TrackInternal, TrackAlpha, TrackBeta}
   \<and> Publish unicodeStub (MemMapFs [(''auth.json'', []), (''bin.aab'', [])])
        ''com.sample.app'' '' '' ''auth.json'' [Binary ''bin.aab''] False False =
      Inl (New ''track name to publish binary to is required'')
   \<and> \<not> sublist TrackInternal ''track name to publish binary to is required''
   \<and> \<not> sublist TrackAlpha ''track name to publish binary to is required''
   \<and> \<not> sublist TrackBeta ''track name to publish binary to is required''"
  by (simp add: publish_eval string_eval sublist_code prefix_code)

text \<open>
  C4, amended. When the track, lowercased and trimmed, is not one of \<open>internal\<close>,
  \<open>alpha\<close>, \<open>beta\<close> (as for the production track), \<open>Publish\<close> fails; when moreover the
  authentication file exists, the package name is not blank and the normalised track is
  not empty, the error names the normalised track and the three allowed tracks.
\<close>

theorem Publish_unsupported_track:
  assumes "TrimSpace u (ToLower u trk) \<notin> {TrackInternal, TrackAlpha, TrackBeta}"
  shows "isl (Publish u fsys pkg trk auth fl isApk verb)
    \<and> (\<not> isl (Stat fsys auth) \<and> TrimSpace u pkg \<noteq> [] \<and> TrimSpace u (ToLower u trk) \<noteq> []
        \<longrightarrow> Publish u fsys pkg trk auth fl isApk verb =
              Inl (New (''provided track type '' @ quoted (TrimSpace u (ToLower u trk))
                        @ '' not supported. Only supported types are '' @ quoted ''beta''
                        @ '' '' @ quoted ''alpha'' @ '' '' @ quoted ''internal'')))"
  using assms
  by (auto simp: Publish_def Let_def fileExits_iff TrackInternal_def TrackAlpha_def
        TrackBeta_def)

theorem Publish_unsupported_track_witness:
  "TrimSpace unicodeStub (ToLower unicodeStub TrackProduction)
      \<notin> {TrackInternal, TrackAlpha, TrackBeta}
   \<and> Publish unicodeStub (MemMapFs [(''auth.json'', []), (''bin.aab'', [])])
        ''com.sample.app0'' TrackProduction ''auth.json'' [Binary ''bin.aab''] False False =
      Inl (New (''provided track type '' @ quoted ''production''
                @ '' not supported. Only supported types are '' @ quoted ''beta''
                @ '' '' @ quoted ''alpha'' @ '' '' @ quoted ''internal''))"
proof -
  have n: "TrimSpace unicodeStub (ToLower unicodeStub TrackProduction) = ''production''"
    by (simp add: string_eval)
  have h: "TrimSpace unicodeStub (ToLower unicodeStub TrackProduction)
      \<notin> {TrackInternal, TrackAlpha, TrackBeta}"
    unfolding n by (simp add: string_eval)
  have p: "TrimSpace unicodeStub ''com.sample.app0'' \<noteq> []"
    by (simp add: string_eval)
  show ?thesis
    using h p n
      Publish_unsupported_track [OF h,
        of "MemMapFs [(''auth.json'', []), (''bin.aab'', [])]" "''com.sample.app0''"
           "''auth.json''" "[Binary ''bin.aab'']" False False]
    by (simp add: MemMapFs_def)
qed


text \<open>
  C7, as stated, fails in two ways: the earlier checks come first, so with a missing
  authentication file the error names that file and not the missing binary; and the loop
  stops at the first missing path, so a second missing binary is never named.
\<close>

theorem Publish_missing_path_counterexample:
  "isl (Stat (MemMapFs [(''bin.aab'', [])]) ''gone.aab'')
   \<and> Publish unicodeStub (MemMapFs [(''bin.aab'', [])]) ''com.sample.app0'' ''internal''
        ''auth.json'' [Binary ''bin.aab'', Binary ''gone.aab''] False False =
      Inl (New (''authentication file '' @ quoted ''auth.json'' @ '' does not exist''))
   \<and> \<not> sublist ''gone.aab''
          (''authentication file '' @ quoted ''auth.json'' @ '' does not exist'')
   \<and> isl (Stat (MemMapFs [(''auth.json'', [])]) ''second.aab'')
   \<and> Publish unicodeStub (MemMapFs [(''auth.json'', [])]) ''com.sample.app0'' ''internal''
        ''auth.json'' [Binary ''first.aab'', Binary ''second.aab''] False False =
      Inl (New (''binary file '' @ quoted ''first.aab'' @ '' does not exist''))
   \<and> \<not> sublist ''second.aab'' (''binary file '' @ quoted ''first.aab'' @ '' does not exist'')"
  by (simp add: publish_eval string_eval sublist_code prefix_code)

text \<open>
  C7, amended. When the list has an entry whose binary file does not exist, or whose
  mapping path is not empty and does not exist, \<open>Publish\<close> fails; when the authentication
  file exists, the package name is not blank and the track is supported, the error names
  the first missing path in the order of the list (within an entry the binary before the
  mapping). When every listed binary and every given mapping file exists, \<open>Publish\<close>
  returns no error about a missing binary or mapping file.
\<close>

theorem Publish_missing_file:
  "((\<exists>q\<in>set (checkedPaths fl). isl (Stat fsys q)) \<longrightarrow>
      isl (Publish u fsys pkg trk auth fl isApk verb)
      \<and> (\<not> isl (Stat fsys auth) \<and> TrimSpace u pkg \<noteq> []
           \<and> TrimSpace u (ToLower u trk) \<in> {TrackInternal, TrackAlpha, TrackBeta} \<longrightarrow>
         (\<exists>q. List.find (\<lambda>q. isl (Stat fsys q)) (checkedPaths fl) = Some q
            \<and> (Publish u fsys pkg trk auth fl isApk verb =
                  Inl (New (''binary file '' @ quoted q @ '' does not exist''))
               \<or> Publish u fsys pkg trk auth fl isApk verb =
                  Inl (New (''mappings file '' @ quoted q @ '' does not exist'')))
            \<and> sublist q (errorString (projl (Publish u fsys pkg trk auth fl isApk verb))))))
   \<and> ((\<forall>q\<in>set (checkedPaths fl). \<not> isl (Stat fsys q)) \<longrightarrow>
        (\<forall>q. Publish u fsys pkg trk auth fl isApk verb \<noteq>
                Inl (New (''binary file '' @ quoted q @ '' does not exist''))
           \<and> Publish u fsys pkg trk auth fl isApk verb \<noteq>
                Inl (New (''mappings file '' @ quoted q @ '' does not exist''))))"
proof (intro conjI impI)
  let ?p0 = "\<lparr>packageName = [], track = [], authFile = [], files = [], apk = False,
              verbose = verb, fs = fsys\<rparr>"
  assume missing: "\<exists>q\<in>set (checkedPaths fl). isl (Stat fsys q)"
  then have some: "checkFiles ?p0 fl \<noteq> None"
    by (simp add: checkFiles_None)
  then show "isl (Publish u fsys pkg trk auth fl isApk verb)"
    by (auto simp: Publish_def Let_def split: option.splits)
  assume "\<not> isl (Stat fsys auth) \<and> TrimSpace u pkg \<noteq> []
           \<and> TrimSpace u (ToLower u trk) \<in> {TrackInternal, TrackAlpha, TrackBeta}"
  moreover from missing have "fl \<noteq> []"
    by (auto simp: checkedPaths_def)
  ultimately have eq: "Publish u fsys pkg trk auth fl isApk verb =
     (case checkFiles ?p0 fl of Some err \<Rightarrow> Inl err
      | None \<Rightarrow> Inr \<lparr>packageName = TrimSpace u pkg, track = TrimSpace u (ToLower u trk),
                     authFile = auth, files = fl, apk = isApk, verbose = verb, fs = fsys\<rparr>)"
    by (intro Publish_checks_passed) simp_all
  from some obtain err where err: "checkFiles ?p0 fl = Some err"
    by auto
  from checkFiles_Some [OF err] obtain q where
    q: "List.find (\<lambda>q. isl (Stat fsys q)) (checkedPaths fl) = Some q"
    and msg: "err = New (''binary file '' @ quoted q @ '' does not exist'')
        \<or> err = New (''mappings file '' @ quoted q @ '' does not exist'')"
    by auto
  have res: "Publish u fsys pkg trk auth fl isApk verb = Inl err"
    using eq err by simp
  have "sublist q (errorString err)"
    using msg sublist_quoted [of q] by (auto simp only: errorString.simps)
  with q msg res
  show "\<exists>q. List.find (\<lambda>q. isl (Stat fsys q)) (checkedPaths fl) = Some q
            \<and> (Publish u fsys pkg trk auth fl isApk verb =
                  Inl (New (''binary file '' @ quoted q @ '' does not exist''))
               \<or> Publish u fsys pkg trk auth fl isApk verb =
                  Inl (New (''mappings file '' @ quoted q @ '' does not exist'')))
            \<and> sublist q (errorString (projl (Publish u fsys pkg trk auth fl isApk verb)))"
    by (intro exI [of _ q]) (auto simp only: sum.sel)
next
  let ?p0 = "\<lparr>packageName = [], track = [], authFile = [], files = [], apk = False,
              verbose = verb, fs = fsys\<rparr>"
  assume "\<forall>q\<in>set (checkedPaths fl). \<not> isl (Stat fsys q)"
  then have none: "checkFiles ?p0 fl = None"
    by (simp add: checkFiles_None)
  show "\<forall>q. Publish u fsys pkg trk auth fl isApk verb \<noteq>
                Inl (New (''binary file '' @ quoted q @ '' does not exist''))
           \<and> Publish u fsys pkg trk auth fl isApk verb \<noteq>
                Inl (New (''mappings file '' @ quoted q @ '' does not exist''))"
    using none
    by (auto simp: Publish_def Let_def quoted_def)
qed

theorem Publish_missing_file_witness:
  "isl (Stat (MemMapFs [(''auth.json'', []), (''bin.aab'', [])]) ''mapping.txt'')
   \<and> Publish unicodeStub (MemMapFs [(''auth.json'', []), (''bin.aab'', [])])
        ''com.sample.app0'' ''internal'' ''auth.json''
        [BinaryWithMapping ''bin.aab'' ''mapping.txt'', Binary ''dontexit.aab''] False False =
      Inl (New (''mappings file '' @ quoted ''mapping.txt'' @ '' does not exist''))
   \<and> Publish unicodeStub (MemMapFs [(''auth.json'', []), (''bin.aab'', [])])
        ''com.sample.app0'' ''internal'' ''auth.json'' [Binary ''bin.aab''] False False =
      Inr \<lparr>packageName = ''com.sample.app0'', track = ''internal'', authFile = ''auth.json'',
           files = [Binary ''bin.aab''], apk = False, verbose = False,
           fs = MemMapFs [(''auth.json'', []), (''bin.aab'', [])]\<rparr>"
  using Publish_missing_file
    [of "[BinaryWithMapping ''bin.aab'' ''mapping.txt'', Binary ''dontexit.aab'']"
        "MemMapFs [(''auth.json'', []), (''bin.aab'', [])]" unicodeStub "''com.sample.app0''"
        "''internal''" "''auth.json''" False False]
  by (simp add: publish_eval string_eval)


text \<open>
  C10. \<open>Publish\<close> matches the track after lowercasing and trimming it: a request that is
  accepted stores \<open>TrimSpace (ToLower track)\<close>, which is one of the three names, and
  \<open>TrimSpace packageName\<close>. Every track made of ASCII white space, a spelling of
  \<open>internal\<close>, \<open>alpha\<close> or \<open>beta\<close> in any mix of upper and lower case, and ASCII white
  space again has that name as its normal form and is accepted when the other checks
  pass. \<open>TrimSpace\<close> removes the ASCII white space around a text that begins and ends with
  an ASCII character that is not white space.
\<close>

theorem Publish_normalises_track_and_name:
  "(Publish u fsys pkg trk auth fl isApk verb = Inr p \<longrightarrow>
      track p = TrimSpace u (ToLower u trk)
      \<and> track p \<in> {TrackInternal, TrackAlpha, TrackBeta}
      \<and> packageName p = TrimSpace u pkg)
   \<and> (list_all asciiSpace ws1 \<and> list_all asciiSpace ws2 \<and> map lowerASCII x = t
        \<and> t \<in> {TrackInternal, TrackAlpha, TrackBeta} \<longrightarrow>
       TrimSpace u (ToLower u (ws1 @ x @ ws2)) = t
       \<and> (\<not> isl (Stat fsys auth) \<and> TrimSpace u pkg \<noteq> [] \<and> fl \<noteq> []
            \<and> (\<forall>q\<in>set (checkedPaths fl). \<not> isl (Stat fsys q)) \<longrightarrow>
          Publish u fsys pkg (ws1 @ x @ ws2) auth fl isApk verb =
            Inr \<lparr>packageName = TrimSpace u pkg, track = t, authFile = auth, files = fl,
                 apk = isApk, verbose = verb, fs = fsys\<rparr>))
   \<and> (list_all asciiSpace ws3 \<and> list_all asciiSpace ws4 \<and> name \<noteq> []
        \<and> isASCII (hd name) \<and> \<not> asciiSpace (hd name)
        \<and> isASCII (last name) \<and> \<not> asciiSpace (last name) \<longrightarrow>
       TrimSpace u (ws3 @ name @ ws4) = name)"
proof (intro conjI impI)
  assume "Publish u fsys pkg trk auth fl isApk verb = Inr p"
  from Publish_Inr [OF this]
  show "track p = TrimSpace u (ToLower u trk)"
    and "track p \<in> {TrackInternal, TrackAlpha, TrackBeta}"
    and "packageName p = TrimSpace u pkg"
    by simp_all
next
  assume v: "list_all asciiSpace ws1 \<and> list_all asciiSpace ws2 \<and> map lowerASCII x = t
        \<and> t \<in> {TrackInternal, TrackAlpha, TrackBeta}"
  then show nf: "TrimSpace u (ToLower u (ws1 @ x @ ws2)) = t"
    by (intro track_normal_form) simp_all
  assume c: "\<not> isl (Stat fsys auth) \<and> TrimSpace u pkg \<noteq> [] \<and> fl \<noteq> []
            \<and> (\<forall>q\<in>set (checkedPaths fl). \<not> isl (Stat fsys q))"
  then have "checkFiles \<lparr>packageName = [], track = [], authFile = [], files = [],
       apk = False, verbose = verb, fs = fsys\<rparr> fl = None"
    by (simp add: checkFiles_None)
  moreover have "TrimSpace u (ToLower u (ws1 @ x @ ws2))
      \<in> {TrackInternal, TrackAlpha, TrackBeta}"
    using v nf by simp
  ultimately show "Publish u fsys pkg (ws1 @ x @ ws2) auth fl isApk verb =
            Inr \<lparr>packageName = TrimSpace u pkg, track = t, authFile = auth, files = fl,
                 apk = isApk, verbose = verb, fs = fsys\<rparr>"
    using c nf by (simp add: Publish_checks_passed)
next
  assume "list_all asciiSpace ws3 \<and> list_all asciiSpace ws4 \<and> name \<noteq> []
        \<and> isASCII (hd name) \<and> \<not> asciiSpace (hd name)
        \<and> isASCII (last name) \<and> \<not> asciiSpace (last name)"
  then show "TrimSpace u (ws3 @ name @ ws4) = name"
    by (intro TrimSpace_core) simp_all
qed

theorem Publish_normalises_track_and_name_witness:
  "list_all asciiSpace ''  '' \<and> list_all asciiSpace '' ''
   \<and> map lowerASCII ''INTERNAL'' = TrackInternal
   \<and> Publish unicodeStub (MemMapFs [(''auth.json'', []), (''bin.aab'', [])])
        '' com.sample.app  '' (''  '' @ ''INTERNAL'' @ '' '') ''auth.json''
        [Binary ''bin.aab''] False False =
      Inr \<lparr>packageName = ''com.sample.app'', track = ''internal'', authFile = ''auth.json'',
           files = [Binary ''bin.aab''], apk = False, verbose = False,
           fs = MemMapFs [(''auth.json'', []), (''bin.aab'', [])]\<rparr>"
  using Publish_normalises_track_and_name
    [of unicodeStub "MemMapFs [(''auth.json'', []), (''bin.aab'', [])]"
        "'' com.sample.app  ''" "''  INTERNAL ''" "''auth.json''" "[Binary ''bin.aab'']"
        False False _ "''  ''" "'' ''" "''INTERNAL''" TrackInternal
        "'' ''" "''  ''" "''com.sample.app''"]
  by (simp add: publish_eval string_eval)

section \<open>Properties of the upload\<close>

lemma call_createEdit_eq:
  "call_createEdit gs pkg w =
     (fst (createEdit gs pkg (svc w)),
      \<lparr>svc = snd (createEdit gs pkg (svc w)),
       trace = trace w @ [EvCreateEdit pkg (fst (createEdit gs pkg (svc w)))]\<rparr>)"
  by (simp add: call_createEdit_def split: prod.splits)

lemma call_validateEdit_eq:
  "call_validateEdit gs pkg e w =
     (fst (validateEdit gs pkg e (svc w)),
      \<lparr>svc = snd (validateEdit gs pkg e (svc w)),
       trace = trace w @ [EvValidateEdit pkg e (fst (validateEdit gs pkg e (svc w)))]\<rparr>)"
  by (simp add: call_validateEdit_def split: prod.splits)

lemma call_deleteEdit_eq:
  "call_deleteEdit gs pkg e w =
     (fst (deleteEdit gs pkg e (svc w)),
      \<lparr>svc = snd (deleteEdit gs pkg e (svc w)),
       trace = trace w @ [EvDeleteEdit pkg e (fst (deleteEdit gs pkg e (svc w)))]\<rparr>)"
  by (simp add: call_deleteEdit_def split: prod.splits)

lemma call_commitEdit_eq:
  "call_commitEdit gs pkg e w =
     (fst (commitEdit gs pkg e (svc w)),
      \<lparr>svc = snd (commitEdit gs pkg e (svc w)),
       trace = trace w @ [EvCommitEdit pkg e (fst (commitEdit gs pkg e (svc w)))]\<rparr>)"
  by (simp add: call_commitEdit_def split: prod.splits)

lemma call_upload_eq:
  "(if isApk then call_uploadApk else call_uploadBundle) us r pkg e w =
     (fst ((if isApk then uploadApk us else uploadBundle us) r pkg e (svc w)),
      \<lparr>svc = snd ((if isApk then uploadApk us else uploadBundle us) r pkg e (svc w)),
       trace = trace w @ [EvUpload isApk r pkg e
          (fst ((if isApk then uploadApk us else uploadBundle us) r pkg e (svc w)))]\<rparr>)"
  by (simp add: call_uploadApk_def call_uploadBundle_def EvUpload_def split: prod.splits)

lemma call_uploadProguardMapping_eq:
  "call_uploadProguardMapping us r pkg e v w =
     (fst (uploadProguardMapping us r pkg e v (svc w)),
      \<lparr>svc = snd (uploadProguardMapping us r pkg e v (svc w)),
       trace = trace w @ [EvUploadProguardMapping r pkg e v
          (fst (uploadProguardMapping us r pkg e v (svc w)))]\<rparr>)"
  by (simp add: call_uploadProguardMapping_def split: prod.splits)

lemma kind_EvUpload [simp]:
  "is_uploadApk (EvUpload isApk r pkg e res) \<longleftrightarrow> isApk"
  "is_uploadBundle (EvUpload isApk r pkg e res) \<longleftrightarrow> \<not> isApk"
  "\<not> is_uploadProguardMapping (EvUpload isApk r pkg e res)"
  "\<not> is_deleteEdit (EvUpload isApk r pkg e res)"
  by (simp_all add: EvUpload_def)

lemma uploadsOnly_simps [simp]:
  "uploadsOnly []"
  "uploadsOnly (evs @ evs') \<longleftrightarrow> uploadsOnly evs \<and> uploadsOnly evs'"
  "uploadsOnly (ev # evs) \<longleftrightarrow>
     (is_uploadBundle ev \<or> is_uploadApk ev \<or> is_uploadProguardMapping ev) \<and> uploadsOnly evs"
  by (auto simp: uploadsOnly_def)

lemma calls_simps [simp]:
  "calls kind [] = 0"
  "calls kind (evs @ evs') = calls kind evs + calls kind evs'"
  "calls kind (ev # evs) = (if kind ev then 1 else 0) + calls kind evs"
  by (simp_all add: calls_def)

lemma uploadsOnly_calls:
  "uploadsOnly evs \<Longrightarrow>
   calls is_createEdit evs = 0 \<and> calls is_validateEdit evs = 0
   \<and> calls is_deleteEdit evs = 0 \<and> calls is_commitEdit evs = 0"
  by (induction evs) (auto simp: uploadsOnly_def)

text \<open>What \<open>upload\<close> can do: nothing recorded and a failure before the call, or exactly
  one upload call of the chosen kind.\<close>

lemma upload_shape:
  assumes "upload p us path edit isApk w = (r, w')"
  shows "(w' = w \<and> (\<exists>err. r = Returns (Inl err) \<or> r = Exits err))
       \<or> (\<exists>rd res. trace w' = trace w @ [EvUpload isApk rd (packageName p) edit res]
            \<and> ((\<exists>err. res = Inl err \<and> r = Returns (Inl err))
               \<or> (\<exists>v sha. res = Inr (v, sha)
                     \<and> (r = Returns (Inr v) \<or> (\<exists>err. r = Returns (Inl err))))))"
proof -
  have ev: "\<And>rd res. trace w' = trace w @ [EvUpload isApk rd (packageName p) edit res]
      \<Longrightarrow> (\<exists>err. res = Inl err \<and> r = Returns (Inl err))
               \<or> (\<exists>v sha. res = Inr (v, sha)
                     \<and> (r = Returns (Inr v) \<or> (\<exists>err. r = Returns (Inl err))))
      \<Longrightarrow> ?thesis"
    by blast
  show ?thesis
  proof (cases "fsOpen (fs p) path")
    case (Inl err)
    with assms show ?thesis by (auto simp: upload_def)
  next
    case (Inr f0)
    show ?thesis
    proof (cases "fileSha256 f0")
      case (Inl err)
      with assms Inr show ?thesis by (auto simp: upload_def)
    next
      case hashed: (Inr hf)
      obtain hash f where hf: "hf = (hash, f)" by (cases hf)
      show ?thesis
      proof (cases "fileSize p path")
        case (Exits err)
        with assms Inr hashed hf show ?thesis by (auto simp: upload_def)
      next
        case (Returns sz)
        let ?res = "fst ((if isApk then uploadApk us else uploadBundle us)
                      (ProgressReader f sz) (packageName p) edit (svc w))"
        from assms Inr hashed hf Returns
        have tr: "trace w' = trace w @ [EvUpload isApk (ProgressReader f sz) (packageName p) edit ?res]"
          by (auto simp: upload_def call_upload_eq split: sum.splits prod.splits if_splits)
        from assms Inr hashed hf Returns
        have "(\<exists>err. ?res = Inl err \<and> r = Returns (Inl err))
               \<or> (\<exists>v sha. ?res = Inr (v, sha)
                     \<and> (r = Returns (Inr v) \<or> (\<exists>err. r = Returns (Inl err))))"
          by (auto simp: upload_def call_upload_eq split: sum.splits prod.splits if_splits)
        with tr show ?thesis by (rule ev)
      qed
    qed
  qed
qed

lemma uploadMapping_shape:
  assumes "uploadMapping p us path edit v w = (r, w')"
  shows "(w' = w \<and> (\<exists>err. r = Some err))
       \<or> (\<exists>rd. trace w' = trace w @ [EvUploadProguardMapping rd (packageName p) edit v r])"
proof (cases "fsOpen (fs p) path")
  case (Inl err)
  with assms show ?thesis by (auto simp: uploadMapping_def)
next
  case (Inr f)
  with assms
  have "trace w' = trace w @ [EvUploadProguardMapping (FileReader f) (packageName p) edit v r]"
    by (auto simp: uploadMapping_def call_uploadProguardMapping_eq
             split: option.splits prod.splits)
  then show ?thesis by blast
qed


lemma upload_success:
  assumes "upload p us path edit isApk w = (Returns (Inr v), w')"
  shows "\<exists>rd sha. trace w' = trace w @ [EvUpload isApk rd (packageName p) edit (Inr (v, sha))]"
  using upload_shape [OF assms] by auto

lemma upload_failure:
  assumes "upload p us path edit isApk w = (Returns (Inl err), w')"
  shows "\<exists>evs. uploadsOnly evs \<and> trace w' = trace w @ evs"
proof -
  from upload_shape [OF assms]
  consider "w' = w"
    | rd res where "trace w' = trace w @ [EvUpload isApk rd (packageName p) edit res]"
    by auto
  then show ?thesis
  proof cases
    case 1
    then have "uploadsOnly [] \<and> trace w' = trace w @ []" by simp
    then show ?thesis by blast
  next
    case 2
    then have "uploadsOnly [EvUpload isApk rd (packageName p) edit res]
        \<and> trace w' = trace w @ [EvUpload isApk rd (packageName p) edit res]"
      by simp
    then show ?thesis by blast
  qed
qed

lemma upload_exit:
  assumes "upload p us path edit isApk w = (Exits err, w')"
  shows "w' = w \<and> Stat (fs p) path = Inl err"
  using assms
  by (auto simp: upload_def fileSize_def call_upload_eq
           split: sum.splits outcome.splits prod.splits if_splits)

lemma uploadMapping_success:
  assumes "uploadMapping p us path edit v w = (None, w')"
  shows "\<exists>rd. trace w' = trace w @ [EvUploadProguardMapping rd (packageName p) edit v None]"
  using uploadMapping_shape [OF assms] by auto

lemma uploadMapping_failure:
  assumes "uploadMapping p us path edit v w = (Some err, w')"
  shows "\<exists>evs. uploadsOnly evs \<and> trace w' = trace w @ evs"
proof -
  from uploadMapping_shape [OF assms]
  consider "w' = w"
    | rd where "trace w' = trace w @ [EvUploadProguardMapping rd (packageName p) edit v (Some err)]"
    by auto
  then show ?thesis
  proof cases
    case 1
    then have "uploadsOnly [] \<and> trace w' = trace w @ []" by simp
    then show ?thesis by blast
  next
    case 2
    then have "uploadsOnly [EvUploadProguardMapping rd (packageName p) edit v (Some err)]
        \<and> trace w' = trace w @ [EvUploadProguardMapping rd (packageName p) edit v (Some err)]"
      by simp
    then show ?thesis by blast
  qed
qed

text \<open>One entry of the loop.\<close>

lemma uploadEntry_success:
  assumes "uploadEntry p gs edit f vs w = (Returns (Inr vs'), w')"
  shows "\<exists>rd v sha rd'. vs' = vs @ [v]
     \<and> trace w' = trace w @ EvUpload (apk p) rd (packageName p) edit (Inr (v, sha))
          # (if mappingPath f = [] then []
             else [EvUploadProguardMapping rd' (packageName p) edit v None])"
proof -
  obtain r1 w1 where u: "upload p gs (filePath f) edit (apk p) w = (r1, w1)"
    by (cases "upload p gs (filePath f) edit (apk p) w")
  with assms obtain v where r1: "r1 = Returns (Inr v)"
    by (auto simp: uploadEntry_def split: outcome.splits sum.splits)
  from upload_success [OF u [unfolded r1]] obtain rd sha where
    t1: "trace w1 = trace w @ [EvUpload (apk p) rd (packageName p) edit (Inr (v, sha))]"
    by blast
  show ?thesis
  proof (cases "mappingPath f = []")
    case True
    with assms u r1 t1 show ?thesis
      by (auto simp: uploadEntry_def)
  next
    case False
    with assms u r1 have m: "uploadMapping p gs (mappingPath f) edit v w1 = (None, w')"
      and vs': "vs' = vs @ [v]"
      by (auto simp: uploadEntry_def split: option.splits prod.splits)
    from uploadMapping_success [OF m] obtain rd' where
      "trace w' = trace w1 @ [EvUploadProguardMapping rd' (packageName p) edit v None]"
      by blast
    with t1 vs' False show ?thesis by auto
  qed
qed

lemma uploadEntry_failure:
  assumes "uploadEntry p gs edit f vs w = (Returns (Inl err), w')"
  shows "\<exists>evs d. uploadsOnly evs
     \<and> trace w' = trace w @ evs @ [EvDeleteEdit (packageName p) edit d]
     \<and> (fst (upload p gs (filePath f) edit (apk p) w) = Returns (Inl err)
        \<or> (mappingPath f \<noteq> []
            \<and> (\<exists>v w1. fst (uploadMapping p gs (mappingPath f) edit v w1) = Some err)))"
proof -
  obtain r1 w1 where u: "upload p gs (filePath f) edit (apk p) w = (r1, w1)"
    by (cases "upload p gs (filePath f) edit (apk p) w")
  from assms u consider
      (upl) "r1 = Returns (Inl err)"
        "w' = snd (call_deleteEdit gs (packageName p) edit w1)"
    | (map) v w2 where "r1 = Returns (Inr v)" "mappingPath f \<noteq> []"
        "uploadMapping p gs (mappingPath f) edit v w1 = (Some err, w2)"
        "w' = snd (call_deleteEdit gs (packageName p) edit w2)"
    by (auto simp: uploadEntry_def split: outcome.splits sum.splits if_splits option.splits
          prod.splits)
  then show ?thesis
  proof cases
    case upl
    from upload_failure [OF u [unfolded upl(1)]] obtain evs where
      "uploadsOnly evs" "trace w1 = trace w @ evs"
      by blast
    with upl u show ?thesis
      by (auto simp: call_deleteEdit_eq)
  next
    case map
    from upload_success [OF u [unfolded map(1)]] obtain rd sha where
      t1: "trace w1 = trace w @ [EvUpload (apk p) rd (packageName p) edit (Inr (v, sha))]"
      by blast
    from uploadMapping_failure [OF map(3)] obtain evs where
      "uploadsOnly evs" "trace w2 = trace w1 @ evs"
      by blast
    with t1 have "uploadsOnly (EvUpload (apk p) rd (packageName p) edit (Inr (v, sha)) # evs)
       \<and> trace w2 = trace w @ EvUpload (apk p) rd (packageName p) edit (Inr (v, sha)) # evs"
      by simp
    moreover have "fst (uploadMapping p gs (mappingPath f) edit v w1) = Some err"
      using map(3) by simp
    ultimately show ?thesis
      using map(2,4)
      by (intro exI [of _ "EvUpload (apk p) rd (packageName p) edit (Inr (v, sha)) # evs"])
         (auto simp: call_deleteEdit_eq)
  qed
qed

lemma uploadEntry_exit:
  assumes "uploadEntry p gs edit f vs w = (Exits err, w')"
  shows "w' = w \<and> Stat (fs p) (filePath f) = Inl err"
proof -
  obtain r1 w1 where u: "upload p gs (filePath f) edit (apk p) w = (r1, w1)"
    by (cases "upload p gs (filePath f) edit (apk p) w")
  with assms have "r1 = Exits err" "w1 = w'"
    by (auto simp: uploadEntry_def split: outcome.splits sum.splits if_splits option.splits
          prod.splits)
  with u upload_exit show ?thesis by blast
qed


text \<open>The whole loop.\<close>

lemma uploadEntries_success:
  "uploadEntries p gs edit fl vs w = (Returns (Inr vs'), w') \<Longrightarrow>
   \<exists>evs. uploadsOnly evs \<and> trace w' = trace w @ evs
     \<and> calls is_uploadApk evs = (if apk p then length fl else 0)
     \<and> calls is_uploadBundle evs = (if apk p then 0 else length fl)
     \<and> calls is_uploadProguardMapping evs = length (filter (\<lambda>f. mappingPath f \<noteq> []) fl)"
proof (induction fl arbitrary: vs w)
  case Nil
  then have "uploadsOnly [] \<and> trace w' = trace w @ []" by simp
  then show ?case by (intro exI [of _ "[]"]) simp
next
  case (Cons f rest)
  obtain r1 w1 where e: "uploadEntry p gs edit f vs w = (r1, w1)"
    by (cases "uploadEntry p gs edit f vs w")
  with Cons.prems obtain vs1 where r1: "r1 = Returns (Inr vs1)"
    and rest: "uploadEntries p gs edit rest vs1 w1 = (Returns (Inr vs'), w')"
    by (auto split: outcome.splits sum.splits)
  from uploadEntry_success [OF e [unfolded r1]] obtain rd v sha rd' where
    t1: "trace w1 = trace w @ EvUpload (apk p) rd (packageName p) edit (Inr (v, sha))
          # (if mappingPath f = [] then []
             else [EvUploadProguardMapping rd' (packageName p) edit v None])"
    by blast
  from Cons.IH [OF rest] obtain evs where
    evs: "uploadsOnly evs" "trace w' = trace w1 @ evs"
      "calls is_uploadApk evs = (if apk p then length rest else 0)"
      "calls is_uploadBundle evs = (if apk p then 0 else length rest)"
      "calls is_uploadProguardMapping evs = length (filter (\<lambda>f. mappingPath f \<noteq> []) rest)"
    by blast
  let ?one = "EvUpload (apk p) rd (packageName p) edit (Inr (v, sha))
          # (if mappingPath f = [] then []
             else [EvUploadProguardMapping rd' (packageName p) edit v None])"
  have one: "uploadsOnly ?one"
    by (simp add: uploadsOnly_def)
  show ?case
    using evs t1 one
    by (intro exI [of _ "?one @ evs"]) simp
qed

lemma uploadEntries_failure:
  "uploadEntries p gs edit fl vs w = (Returns (Inl err), w') \<Longrightarrow>
   \<exists>evs d. uploadsOnly evs
     \<and> trace w' = trace w @ evs @ [EvDeleteEdit (packageName p) edit d]
     \<and> ((\<exists>f\<in>set fl. \<exists>w1. fst (upload p gs (filePath f) edit (apk p) w1) = Returns (Inl err))
        \<or> (\<exists>f\<in>set fl. \<exists>v w1. mappingPath f \<noteq> []
               \<and> fst (uploadMapping p gs (mappingPath f) edit v w1) = Some err))"
proof (induction fl arbitrary: vs w)
  case Nil
  then show ?case by simp
next
  case (Cons f rest)
  obtain r1 w1 where e: "uploadEntry p gs edit f vs w = (r1, w1)"
    by (cases "uploadEntry p gs edit f vs w")
  with Cons.prems consider
      (here) "r1 = Returns (Inl err)" "w1 = w'"
    | (later) vs1 where "r1 = Returns (Inr vs1)"
        "uploadEntries p gs edit rest vs1 w1 = (Returns (Inl err), w')"
    by (auto split: outcome.splits sum.splits)
  then show ?case
  proof cases
    case here
    from uploadEntry_failure [OF e [unfolded here(1)]] here(2)
    show ?thesis by fastforce
  next
    case later
    from uploadEntry_success [OF e [unfolded later(1)]] obtain rd v sha rd' where
      t1: "trace w1 = trace w @ EvUpload (apk p) rd (packageName p) edit (Inr (v, sha))
          # (if mappingPath f = [] then []
             else [EvUploadProguardMapping rd' (packageName p) edit v None])"
      by blast
    let ?one = "EvUpload (apk p) rd (packageName p) edit (Inr (v, sha))
          # (if mappingPath f = [] then []
             else [EvUploadProguardMapping rd' (packageName p) edit v None])"
    have one: "uploadsOnly ?one"
      by (simp add: uploadsOnly_def)
    from Cons.IH [OF later(2)] obtain evs d where
      evs: "uploadsOnly evs" "trace w' = trace w1 @ evs @ [EvDeleteEdit (packageName p) edit d]"
      and step: "(\<exists>f\<in>set rest. \<exists>w1. fst (upload p gs (filePath f) edit (apk p) w1) = Returns (Inl err))
        \<or> (\<exists>f\<in>set rest. \<exists>v w1. mappingPath f \<noteq> []
               \<and> fst (uploadMapping p gs (mappingPath f) edit v w1) = Some err)"
      by blast
    have "uploadsOnly (?one @ evs)
        \<and> trace w' = trace w @ (?one @ evs) @ [EvDeleteEdit (packageName p) edit d]"
      using evs t1 one by simp
    moreover from step
    have "(\<exists>f\<in>set (f # rest). \<exists>w1. fst (upload p gs (filePath f) edit (apk p) w1) = Returns (Inl err))
        \<or> (\<exists>f\<in>set (f # rest). \<exists>v w1. mappingPath f \<noteq> []
               \<and> fst (uploadMapping p gs (mappingPath f) edit v w1) = Some err)"
      by auto
    ultimately show ?thesis by blast
  qed
qed

lemma uploadEntries_exit:
  "uploadEntries p gs edit fl vs w = (Exits err, w') \<Longrightarrow>
   \<exists>evs. uploadsOnly evs \<and> trace w' = trace w @ evs
     \<and> (\<exists>f\<in>set fl. Stat (fs p) (filePath f) = Inl err)"
proof (induction fl arbitrary: vs w)
  case Nil
  then show ?case by simp
next
  case (Cons f rest)
  obtain r1 w1 where e: "uploadEntry p gs edit f vs w = (r1, w1)"
    by (cases "uploadEntry p gs edit f vs w")
  with Cons.prems consider
      (here) "r1 = Exits err" "w1 = w'"
    | (later) vs1 where "r1 = Returns (Inr vs1)"
        "uploadEntries p gs edit rest vs1 w1 = (Exits err, w')"
    by (auto split: outcome.splits sum.splits)
  then show ?case
  proof cases
    case here
    from uploadEntry_exit [OF e [unfolded here(1)]] here(2)
    have "uploadsOnly [] \<and> trace w' = trace w @ [] \<and> Stat (fs p) (filePath f) = Inl err"
      by simp
    then show ?thesis by (intro exI [of _ "[]"]) simp
  next
    case later
    from uploadEntry_success [OF e [unfolded later(1)]] obtain rd v sha rd' where
      t1: "trace w1 = trace w @ EvUpload (apk p) rd (packageName p) edit (Inr (v, sha))
          # (if mappingPath f = [] then []
             else [EvUploadProguardMapping rd' (packageName p) edit v None])"
      by blast
    let ?one = "EvUpload (apk p) rd (packageName p) edit (Inr (v, sha))
          # (if mappingPath f = [] then []
             else [EvUploadProguardMapping rd' (packageName p) edit v None])"
    have one: "uploadsOnly ?one"
      by (simp add: uploadsOnly_def)
    from Cons.IH [OF later(2)] obtain evs where
      evs: "uploadsOnly evs" "trace w' = trace w1 @ evs"
      and st: "\<exists>f\<in>set rest. Stat (fs p) (filePath f) = Inl err"
      by blast
    have "uploadsOnly (?one @ evs) \<and> trace w' = trace w @ (?one @ evs)"
      using evs t1 one by simp
    with st show ?thesis by (intro exI [of _ "?one @ evs"]) simp
  qed
qed








lemmas upload_eval =
  UploadFiles_def uploadEntry_def upload_def uploadMapping_def fsOpen_def fileSha256_def
  io_Copy_def SeekStart_def unread_def fileSize_def call_createEdit_def call_validateEdit_def
  call_deleteEdit_def call_commitEdit_def call_uploadBundle_def call_uploadApk_def
  call_uploadProguardMapping_def mockService_def mockHash_def testPublish_def testFs_def
  MemMapFs_def mockWorld_def BinaryWithMapping_def Binary_def

lemma hash_not_empty: "EncodeToString (sha256 m) \<noteq> []"
proof
  assume "EncodeToString (sha256 m) = []"
  then have "length (EncodeToString (sha256 m)) = length ([] :: string)"
    by (rule arg_cong)
  then show False
    by (simp add: length_EncodeToString length_sha256)
qed

lemma hash_not_randomValue: "''randomValue'' \<noteq> EncodeToString (sha256 m)"
proof
  assume "''randomValue'' = EncodeToString (sha256 m)"
  then have "length ''randomValue'' = length (EncodeToString (sha256 m))"
    by (rule arg_cong)
  then show False
    by (simp add: length_EncodeToString length_sha256)
qed

text \<open>
  C6. When \<open>createEdit\<close> fails, \<open>UploadFiles\<close> returns its error at once: the call of
  \<open>createEdit\<close> is the only call of the service, so \<open>deleteEdit\<close> is not called and no
  upload, \<open>validateEdit\<close> or \<open>commitEdit\<close> is attempted.
\<close>

theorem UploadFiles_createEdit_fails:
  "createEdit gs (packageName p) (svc w) = (Inl err, s) \<Longrightarrow>
   UploadFiles p (Some gs) w =
     (Returns (Some err),
      \<lparr>svc = s, trace = trace w @ [EvCreateEdit (packageName p) (Inl err)]\<rparr>)"
  by (simp add: UploadFiles_def call_createEdit_def)


theorem UploadFiles_createEdit_fails_witness:
  "createEdit (mockService\<lparr>createEdit := (\<lambda>pkg m. (Inl (New ''forbidden''), m))\<rparr>)
      (packageName testPublish) (svc (mockWorld [])) =
     (Inl (New ''forbidden''), \<lparr>AppVersionCode = 7, Sha256 = []\<rparr>)
   \<and> UploadFiles testPublish
        (Some (mockService\<lparr>createEdit := (\<lambda>pkg m. (Inl (New ''forbidden''), m))\<rparr>))
        (mockWorld []) =
      (Returns (Some (New ''forbidden'')),
       \<lparr>svc = \<lparr>AppVersionCode = 7, Sha256 = []\<rparr>,
        trace = [EvCreateEdit ''com.test.app'' (Inl (New ''forbidden''))]\<rparr>)"
  using UploadFiles_createEdit_fails
    [of "mockService\<lparr>createEdit := (\<lambda>pkg m. (Inl (New ''forbidden''), m))\<rparr>"
        testPublish "mockWorld []" "New ''forbidden''" "\<lparr>AppVersionCode = 7, Sha256 = []\<rparr>"]
  by (simp add: mockService_def mockWorld_def testPublish_def)

text \<open>How the step \<open>upload\<close> fails before the comparison of the hashes: the binary
  cannot be opened, cannot be read or rewound while it is hashed, or the upload call
  returns an error. The step \<open>uploadMapping\<close> fails when the mapping file cannot be
  opened or its upload call returns an error.\<close>

lemma upload_step_failures:
  "(Open (fs p) path = Inl err \<longrightarrow>
      upload p us path edit isApk w = (Returns (Inl err), w))
   \<and> (Open (fs p) path = Inr f0 \<and> f_readErr f0 = Some err \<longrightarrow>
        upload p us path edit isApk w =
          (Returns (Inl (Wrap (''failed calculating '' @ quoted path @ '' sha256 hash: ''
                                @ errorString err) err)), w))
   \<and> (Open (fs p) path = Inr f0 \<and> f_readErr f0 = None \<and> f_seekErr f0 = Some err \<longrightarrow>
        upload p us path edit isApk w =
          (Returns (Inl (Wrap (''failed calculating '' @ quoted path @ '' sha256 hash: ''
                                @ errorString err) err)), w))
   \<and> (Open (fs p) path = Inr f0 \<and> f_readErr f0 = None \<and> f_seekErr f0 = None
        \<and> Stat (fs p) path = Inr sz
        \<and> (if isApk then uploadApk us else uploadBundle us)
             (ProgressReader (f0\<lparr>f_pos := 0\<rparr>) sz) (packageName p) edit (svc w)
           = (Inl err, s) \<longrightarrow>
        upload p us path edit isApk w =
          (Returns (Inl err),
           \<lparr>svc = s,
            trace = trace w @ [EvUpload isApk (ProgressReader (f0\<lparr>f_pos := 0\<rparr>) sz)
                                 (packageName p) edit (Inl err)]\<rparr>))"
  by (auto simp: upload_def fsOpen_def fileSha256_def io_Copy_def SeekStart_def fileSize_def
        call_upload_eq)

lemma uploadMapping_step_failures:
  "(Open (fs p) path = Inl err \<longrightarrow>
      uploadMapping p us path edit v w = (Some err, w))
   \<and> (Open (fs p) path = Inr m
        \<and> uploadProguardMapping us (FileReader (m\<lparr>f_pos := 0\<rparr>)) (packageName p) edit v (svc w)
           = (r, s) \<longrightarrow>
        uploadMapping p us path edit v w =
          (r, \<lparr>svc = s,
               trace = trace w @ [EvUploadProguardMapping (FileReader (m\<lparr>f_pos := 0\<rparr>))
                                    (packageName p) edit v r]\<rparr>))"
  by (auto simp: uploadMapping_def fsOpen_def call_uploadProguardMapping_eq
           split: option.splits)

text \<open>The loop of \<open>UploadFiles\<close> performs the steps of the entries and, when one of
  them fails, calls \<open>deleteEdit\<close> once.\<close>

lemma uploadEntries_steps:
  "(spec_entrySteps p gs edit fl w = (Returns None, w2) \<longrightarrow>
      (\<exists>vs'. uploadEntries p gs edit fl vs w = (Returns (Inr vs'), w2)))
   \<and> (spec_entrySteps p gs edit fl w = (Returns (Some err), w2) \<longrightarrow>
        uploadEntries p gs edit fl vs w
          = (Returns (Inl err), snd (call_deleteEdit gs (packageName p) edit w2)))
   \<and> (spec_entrySteps p gs edit fl w = (Exits err, w2) \<longrightarrow>
        uploadEntries p gs edit fl vs w = (Exits err, w2))"
proof (induction fl arbitrary: vs w)
  case Nil
  show ?case by simp
next
  case (Cons f rest)
  obtain r1 w1 where u: "upload p gs (filePath f) edit (apk p) w = (r1, w1)"
    by (cases "upload p gs (filePath f) edit (apk p) w")
  show ?case
  proof (cases r1)
    case (Exits e)
    with u show ?thesis by (simp add: uploadEntry_def)
  next
    case (Returns x)
    show ?thesis
    proof (cases x)
      case (Inl e)
      with Returns u show ?thesis by (simp add: uploadEntry_def)
    next
      case (Inr v)
      show ?thesis
      proof (cases "mappingPath f = []")
        case True
        with Returns Inr u Cons.IH [where vs = "vs @ [v]" and w = w1] show ?thesis
          by (simp add: uploadEntry_def)
      next
        case False
        obtain rm wm where m: "uploadMapping p gs (mappingPath f) edit v w1 = (rm, wm)"
          by (cases "uploadMapping p gs (mappingPath f) edit v w1")
        show ?thesis
        proof (cases rm)
          case None
          with False Returns Inr u m Cons.IH [where vs = "vs @ [v]" and w = wm] show ?thesis
            by (simp add: uploadEntry_def)
        next
          case (Some e)
          with False Returns Inr u m show ?thesis
            by (simp add: uploadEntry_def)
        qed
      qed
    qed
  qed
qed

text \<open>The steps of the entries record uploads only.\<close>

lemma spec_entrySteps_trace:
  "spec_entrySteps p gs edit fl w = (r, w2) \<Longrightarrow>
   \<exists>evs. uploadsOnly evs \<and> trace w2 = trace w @ evs
     \<and> (r = Returns None \<longrightarrow>
          calls is_uploadApk evs = (if apk p then length fl else 0)
          \<and> calls is_uploadBundle evs = (if apk p then 0 else length fl)
          \<and> calls is_uploadProguardMapping evs
               = length (filter (\<lambda>f. mappingPath f \<noteq> []) fl))"
proof -
  assume s: "spec_entrySteps p gs edit fl w = (r, w2)"
  show ?thesis
  proof (cases r)
    case (Exits e)
    with s uploadEntries_steps
      [where p = p and gs = gs and edit = edit and fl = fl and w = w and ?w2.0 = w2
         and vs = "[]" and err = e]
    have "uploadEntries p gs edit fl [] w = (Exits e, w2)"
      by simp
    from uploadEntries_exit [OF this] Exits show ?thesis by auto
  next
    case (Returns x)
    show ?thesis
    proof (cases x)
      case None
      with Returns s uploadEntries_steps
        [where p = p and gs = gs and edit = edit and fl = fl and w = w and ?w2.0 = w2
           and vs = "[]"]
      obtain vs' where "uploadEntries p gs edit fl [] w = (Returns (Inr vs'), w2)"
        by auto
      from uploadEntries_success [OF this] show ?thesis by auto
    next
      case (Some e)
      with Returns s uploadEntries_steps
        [where p = p and gs = gs and edit = edit and fl = fl and w = w and ?w2.0 = w2
           and vs = "[]" and err = e]
      have "uploadEntries p gs edit fl [] w
          = (Returns (Inl e), snd (call_deleteEdit gs (packageName p) edit w2))"
        by simp
      from uploadEntries_failure [OF this] obtain evs d where
        "uploadsOnly evs"
        "trace (snd (call_deleteEdit gs (packageName p) edit w2))
           = trace w @ evs @ [EvDeleteEdit (packageName p) edit d]"
        by blast
      then have "uploadsOnly evs"
        and "trace w2 @ [EvDeleteEdit (packageName p) edit
                 (fst (deleteEdit gs (packageName p) edit (svc w2)))]
             = (trace w @ evs) @ [EvDeleteEdit (packageName p) edit d]"
        by (simp_all add: call_deleteEdit_eq)
      then have "uploadsOnly evs \<and> trace w2 = trace w @ evs"
        by (simp only: append1_eq_conv simp_thms)
      with Returns Some show ?thesis by auto
    qed
  qed
qed

text \<open>The process ends in \<open>fileSize\<close> when \<open>Stat\<close> fails on a binary after it was
  opened and hashed; \<open>UploadFiles\<close> then returns nothing and calls nothing more.\<close>

lemma UploadFiles_exits:
  assumes "createEdit gs (packageName p) (svc w) = (Inr edit, s1)"
    and "spec_laterSteps p gs edit
           \<lparr>svc = s1, trace = trace w @ [EvCreateEdit (packageName p) (Inr edit)]\<rparr>
         = (Exits err, w2)"
  shows "UploadFiles p (Some gs) w = (Exits err, w2)"
proof -
  let ?w1 = "\<lparr>svc = s1, trace = trace w @ [EvCreateEdit (packageName p) (Inr edit)]\<rparr>"
  have c: "call_createEdit gs (packageName p) w = (Inr edit, ?w1)"
    using assms(1) by (simp add: call_createEdit_def)
  from assms(2) have "spec_entrySteps p gs edit (files p) ?w1 = (Exits err, w2)"
    by (auto simp: spec_laterSteps_def split: prod.splits outcome.splits option.splits)
  with uploadEntries_steps
      [where p = p and gs = gs and edit = edit and fl = "files p" and w = ?w1 and ?w2.0 = w2
         and vs = "[]" and err = err]
  have "uploadEntries p gs edit (files p) [] ?w1 = (Exits err, w2)"
    by simp
  with c show ?thesis
    by (simp add: UploadFiles_def)
qed

text \<open>
  C2. When \<open>createEdit\<close> succeeds and every later step succeeds (the upload and the
  verification of every binary, the upload of every mapping file, \<open>validateEdit\<close> and
  \<open>commitEdit\<close>), \<open>UploadFiles\<close> returns no error, in the state the last step left, and
  what it has called is exactly these steps: \<open>createEdit\<close>, \<open>validateEdit\<close> and
  \<open>commitEdit\<close> once each, \<open>deleteEdit\<close> never, one binary upload of the selected kind
  per entry and one mapping upload per entry with a mapping path.
\<close>

theorem UploadFiles_success_calls:
  assumes "createEdit gs (packageName p) (svc w) = (Inr edit, s1)"
    and "spec_laterSteps p gs edit
           \<lparr>svc = s1, trace = trace w @ [EvCreateEdit (packageName p) (Inr edit)]\<rparr>
         = (Returns None, w2)"
  shows "UploadFiles p (Some gs) w = (Returns None, w2)
     \<and> (\<exists>evs. trace w2 = trace w @ evs
           \<and> calls is_createEdit evs = 1 \<and> calls is_validateEdit evs = 1
           \<and> calls is_commitEdit evs = 1 \<and> calls is_deleteEdit evs = 0
           \<and> calls is_uploadApk evs = (if apk p then length (files p) else 0)
           \<and> calls is_uploadBundle evs = (if apk p then 0 else length (files p))
           \<and> calls is_uploadProguardMapping evs
                = length (filter (\<lambda>f. mappingPath f \<noteq> []) (files p)))"
proof -
  let ?pkg = "packageName p"
  let ?w1 = "\<lparr>svc = s1, trace = trace w @ [EvCreateEdit ?pkg (Inr edit)]\<rparr>"
  have c: "call_createEdit gs ?pkg w = (Inr edit, ?w1)"
    using assms(1) by (simp add: call_createEdit_def)
  from assms(2) obtain wa wb where
    e: "spec_entrySteps p gs edit (files p) ?w1 = (Returns None, wa)"
    and v: "call_validateEdit gs ?pkg edit wa = (None, wb)"
    and m: "call_commitEdit gs ?pkg edit wb = (None, w2)"
    by (auto simp: spec_laterSteps_def split: prod.splits outcome.splits option.splits)
  from e uploadEntries_steps
      [where p = p and gs = gs and edit = edit and fl = "files p" and w = ?w1 and ?w2.0 = wa
         and vs = "[]"]
  obtain vs' where l: "uploadEntries p gs edit (files p) [] ?w1 = (Returns (Inr vs'), wa)"
    by auto
  have res: "UploadFiles p (Some gs) w = (Returns None, w2)"
    using c l v m by (simp add: UploadFiles_def)
  from spec_entrySteps_trace [OF e] obtain evs where
    evs: "uploadsOnly evs" "trace wa = trace ?w1 @ evs"
      "calls is_uploadApk evs = (if apk p then length (files p) else 0)"
      "calls is_uploadBundle evs = (if apk p then 0 else length (files p))"
      "calls is_uploadProguardMapping evs
         = length (filter (\<lambda>f. mappingPath f \<noteq> []) (files p))"
    by auto
  have tb: "trace wb = trace wa @ [EvValidateEdit ?pkg edit None]"
    using v by (auto simp: call_validateEdit_eq)
  have t2: "trace w2 = trace wb @ [EvCommitEdit ?pkg edit None]"
    using m by (auto simp: call_commitEdit_eq)
  let ?evs = "EvCreateEdit ?pkg (Inr edit) # evs
      @ [EvValidateEdit ?pkg edit None, EvCommitEdit ?pkg edit None]"
  have "trace w2 = trace w @ ?evs"
    using evs(2) tb t2 by simp
  with evs uploadsOnly_calls [OF evs(1)]
  have "\<exists>evs. trace w2 = trace w @ evs
           \<and> calls is_createEdit evs = 1 \<and> calls is_validateEdit evs = 1
           \<and> calls is_commitEdit evs = 1 \<and> calls is_deleteEdit evs = 0
           \<and> calls is_uploadApk evs = (if apk p then length (files p) else 0)
           \<and> calls is_uploadBundle evs = (if apk p then 0 else length (files p))
           \<and> calls is_uploadProguardMapping evs
                = length (filter (\<lambda>f. mappingPath f \<noteq> []) (files p))"
    by (intro exI [of _ ?evs]) simp
  with res show ?thesis by simp
qed

theorem UploadFiles_success_calls_witness:
  "createEdit mockService (packageName testPublish) (svc (mockWorld []))
     = (Inr ''1'', \<lparr>AppVersionCode = 7, Sha256 = []\<rparr>)
   \<and> fst (spec_laterSteps testPublish mockService ''1''
        \<lparr>svc = \<lparr>AppVersionCode = 7, Sha256 = []\<rparr>,
         trace = trace (mockWorld []) @ [EvCreateEdit (packageName testPublish) (Inr ''1'')]\<rparr>)
       = Returns None
   \<and> UploadFiles testPublish (Some mockService) (mockWorld []) =
       (Returns None,
        \<lparr>svc = \<lparr>AppVersionCode = 7, Sha256 = EncodeToString (sha256 [1, 2, 3])\<rparr>,
         trace =
          [EvCreateEdit ''com.test.app'' (Inr ''1''),
           EvUploadBundle
             (ProgressReader
                \<lparr>f_data = [1, 2, 3], f_pos = 0, f_readErr = None, f_seekErr = None\<rparr> 3)
             ''com.test.app'' ''1'' (Inr (7, EncodeToString (sha256 [1, 2, 3]))),
           EvUploadProguardMapping
             (FileReader \<lparr>f_data = [4, 5], f_pos = 0, f_readErr = None, f_seekErr = None\<rparr>)
             ''com.test.app'' ''1'' 7 None,
           EvValidateEdit ''com.test.app'' ''1'' None,
           EvCommitEdit ''com.test.app'' ''1'' None]\<rparr>)"
proof -
  let ?w2 = "\<lparr>svc = \<lparr>AppVersionCode = 7, Sha256 = EncodeToString (sha256 [1, 2, 3])\<rparr>,
         trace =
          [EvCreateEdit ''com.test.app'' (Inr ''1''),
           EvUploadBundle
             (ProgressReader
                \<lparr>f_data = [1, 2, 3], f_pos = 0, f_readErr = None, f_seekErr = None\<rparr> 3)
             ''com.test.app'' ''1'' (Inr (7, EncodeToString (sha256 [1, 2, 3]))),
           EvUploadProguardMapping
             (FileReader \<lparr>f_data = [4, 5], f_pos = 0, f_readErr = None, f_seekErr = None\<rparr>)
             ''com.test.app'' ''1'' 7 None,
           EvValidateEdit ''com.test.app'' ''1'' None,
           EvCommitEdit ''com.test.app'' ''1'' None]\<rparr>"
  have c: "createEdit mockService (packageName testPublish) (svc (mockWorld []))
     = (Inr ''1'', \<lparr>AppVersionCode = 7, Sha256 = []\<rparr>)"
    by (simp add: mockService_def mockWorld_def)
  have l: "spec_laterSteps testPublish mockService ''1''
        \<lparr>svc = \<lparr>AppVersionCode = 7, Sha256 = []\<rparr>,
         trace = trace (mockWorld []) @ [EvCreateEdit (packageName testPublish) (Inr ''1'')]\<rparr>
       = (Returns None, ?w2)"
    by (simp add: spec_laterSteps_def upload_eval hash_not_empty)
  from UploadFiles_success_calls [OF c l] c l show ?thesis
    by simp
qed



text \<open>
  C3. For a binary that can be opened, read, rewound and measured: the local hash is the
  SHA-256 of the full content of the file, in lowercase hexadecimal; the reader handed to
  the upload call is the file rewound to offset 0, so it delivers exactly the bytes that
  were hashed; and when the call answers with a version code and a hash, \<open>upload\<close>
  returns the version code if the two hashes are equal as strings, and otherwise the
  error that carries the local and the remote hash.
\<close>

theorem upload_verifies_hash:
  assumes "Open (fs p) path = Inr f0" and "f_readErr f0 = None" and "f_seekErr f0 = None"
    and "Stat (fs p) path = Inr sz"
    and "(if isApk then uploadApk us else uploadBundle us)
           (ProgressReader (f0\<lparr>f_pos := 0\<rparr>) sz) (packageName p) edit (svc w)
         = (Inr (v, remote), s)"
  shows "fileSha256 (f0\<lparr>f_pos := 0\<rparr>)
           = Inr (EncodeToString (sha256 (f_data f0)), f0\<lparr>f_pos := 0\<rparr>)
     \<and> streamBytes (ProgressReader (f0\<lparr>f_pos := 0\<rparr>) sz) = f_data f0
     \<and> upload p us path edit isApk w =
         (Returns (if remote = EncodeToString (sha256 (f_data f0)) then Inr v
                   else Inl (New (''failed integrity verification with local file hash ''
                                  @ quoted (EncodeToString (sha256 (f_data f0)))
                                  @ '' and remote '' @ quoted remote))),
          \<lparr>svc = s,
           trace = trace w @ [EvUpload isApk (ProgressReader (f0\<lparr>f_pos := 0\<rparr>) sz)
                                (packageName p) edit (Inr (v, remote))]\<rparr>)"
proof (intro conjI)
  show h: "fileSha256 (f0\<lparr>f_pos := 0\<rparr>)
           = Inr (EncodeToString (sha256 (f_data f0)), f0\<lparr>f_pos := 0\<rparr>)"
    using assms(2,3) by (simp add: fileSha256_ok unread_def)
  show "streamBytes (ProgressReader (f0\<lparr>f_pos := 0\<rparr>) sz) = f_data f0"
    by (simp add: unread_def)
  have o: "fsOpen (fs p) path = Inr (f0\<lparr>f_pos := 0\<rparr>)"
    using assms(1) by (simp add: fsOpen_def)
  have z: "fileSize p path = Returns sz"
    using assms(4) by (simp add: fileSize_def)
  show "upload p us path edit isApk w =
         (Returns (if remote = EncodeToString (sha256 (f_data f0)) then Inr v
                   else Inl (New (''failed integrity verification with local file hash ''
                                  @ quoted (EncodeToString (sha256 (f_data f0)))
                                  @ '' and remote '' @ quoted remote))),
          \<lparr>svc = s,
           trace = trace w @ [EvUpload isApk (ProgressReader (f0\<lparr>f_pos := 0\<rparr>) sz)
                                (packageName p) edit (Inr (v, remote))]\<rparr>)"
    using assms(5) by (simp add: upload_def o h z call_upload_eq)
qed

theorem upload_verifies_hash_witness:
  "upload testPublish mockService ''test.aab'' ''1'' False (mockWorld ''randomValue'') =
     (Returns (Inl (New (''failed integrity verification with local file hash ''
                          @ quoted (EncodeToString (sha256 [1, 2, 3]))
                          @ '' and remote '' @ quoted ''randomValue''))),
      \<lparr>svc = \<lparr>AppVersionCode = 7, Sha256 = ''randomValue''\<rparr>,
       trace = [EvUploadBundle
          (ProgressReader \<lparr>f_data = [1, 2, 3], f_pos = 0, f_readErr = None, f_seekErr = None\<rparr> 3)
          ''com.test.app'' ''1'' (Inr (7, ''randomValue''))]\<rparr>)
   \<and> upload testPublish mockService ''test.aab'' ''1'' True (mockWorld []) =
     (Returns (Inr 7),
      \<lparr>svc = \<lparr>AppVersionCode = 7, Sha256 = EncodeToString (sha256 [1, 2, 3])\<rparr>,
       trace = [EvUploadApk
          (ProgressReader \<lparr>f_data = [1, 2, 3], f_pos = 0, f_readErr = None, f_seekErr = None\<rparr> 3)
          ''com.test.app'' ''1'' (Inr (7, EncodeToString (sha256 [1, 2, 3])))]\<rparr>)"
proof -
  let ?f = "\<lparr>f_data = [1, 2, 3], f_pos = 0, f_readErr = None, f_seekErr = None\<rparr>"
  have o: "Open (fs testPublish) ''test.aab'' = Inr ?f"
    and st: "Stat (fs testPublish) ''test.aab'' = Inr 3"
    by (simp_all add: testPublish_def testFs_def MemMapFs_def)
  have bad: "(if False then uploadApk mockService else uploadBundle mockService)
           (ProgressReader (?f\<lparr>f_pos := 0\<rparr>) 3) (packageName testPublish) ''1''
           (svc (mockWorld ''randomValue''))
         = (Inr (7, ''randomValue''), \<lparr>AppVersionCode = 7, Sha256 = ''randomValue''\<rparr>)"
    by (simp add: mockService_def mockHash_def mockWorld_def)
  have good: "(if True then uploadApk mockService else uploadBundle mockService)
           (ProgressReader (?f\<lparr>f_pos := 0\<rparr>) 3) (packageName testPublish) ''1''
           (svc (mockWorld []))
         = (Inr (7, EncodeToString (sha256 [1, 2, 3])),
            \<lparr>AppVersionCode = 7, Sha256 = EncodeToString (sha256 [1, 2, 3])\<rparr>)"
    by (simp add: mockService_def mockHash_def mockWorld_def unread_def)
  from upload_verifies_hash [OF o _ _ st bad] upload_verifies_hash [OF o _ _ st good]
  show ?thesis
    by (simp add: hash_not_randomValue EvUpload_def testPublish_def mockWorld_def)
qed




end
